theory Spec2Isabelle
  imports Main
begin

section \<open>Authentication and credential lifecycle of the student backend\<close>

text \<open>
  A shallow embedding of \<^verbatim>\<open>middleware/auth.js\<close> (the bearer-token middleware),
  \<^verbatim>\<open>models/Student.js\<close> (the schema, its pre-save hashing hook and
  \<^verbatim>\<open>comparePassword\<close>) and the account routes of \<^verbatim>\<open>routes/auth.js\<close>
  (register, login, change-password, logout).

  The collection of students is a list of documents, threaded through every handler; a
  handler returns the JSON response it sends and the collection it leaves behind.  A
  thrown JavaScript error is a value of type \<open>js_error\<close> on the left of a sum.

  The third-party libraries are not part of the repository.  What they compute is taken
  as a parameter (record \<open>externs\<close>): \<^verbatim>\<open>jwt.sign\<close>, \<^verbatim>\<open>jwt.verify\<close>,
  \<^verbatim>\<open>bcrypt.hash\<close>, \<^verbatim>\<open>bcrypt.compare\<close> and the cast of a string to a
  \<^verbatim>\<open>Date\<close>.  The clock reading and the salt that \<^verbatim>\<open>bcrypt.genSalt(10)\<close>
  returns are inputs of each call (record \<open>call_ctx\<close>).  Database calls are assumed to
  reach the database.  Request fields are strings or absent; strings are ASCII.
\<close>

subsection \<open>JavaScript strings\<close>

text \<open>White space as \<^verbatim>\<open>String.prototype.trim\<close> and the regular expression classes
  \<^verbatim>\<open>\s\<close>, \<^verbatim>\<open>\S\<close> see it (ASCII part): TAB, LF, VT, FF, CR, SPACE.\<close>

definition is_space :: "char \<Rightarrow> bool" where
  "is_space c = (of_char c \<in> {9, 10, 11, 12, 13, 32 :: nat})"

definition lower_char :: "char \<Rightarrow> char" where
  "lower_char c =
     (let n = of_char c :: nat in if 65 \<le> n \<and> n \<le> 90 then char_of (n + 32) else c)"

definition toLowerCase :: "string \<Rightarrow> string" where
  "toLowerCase s = map lower_char s"

definition trim :: "string \<Rightarrow> string" where
  "trim s = rev (dropWhile is_space (rev (dropWhile is_space s)))"

text \<open>\<^verbatim>\<open>s.replace(pat, rep)\<close> with a string pattern: the first occurrence of
  \<open>pat\<close>, wherever it stands, is replaced; a string without one is returned as it is.\<close>

fun replace_first :: "string \<Rightarrow> string \<Rightarrow> string \<Rightarrow> string" where
  "replace_first pat rep [] = (if pat = [] then rep else [])"
| "replace_first pat rep (c # cs) =
     (if take (length pat) (c # cs) = pat then rep @ drop (length pat) (c # cs)
      else c # replace_first pat rep cs)"

text \<open>Whether \<open>pat\<close> occurs in a string at all.\<close>

fun occurs_in :: "string \<Rightarrow> string \<Rightarrow> bool" where
  "occurs_in pat [] = (pat = [])"
| "occurs_in pat (c # cs) = (take (length pat) (c # cs) = pat \<or> occurs_in pat cs)"

text \<open>\<^verbatim>\<open>s.split(',')\<close>: the pieces between commas; the empty string gives one
  empty piece.\<close>

fun split_comma :: "string \<Rightarrow> string list" where
  "split_comma [] = [[]]"
| "split_comma (c # cs) =
     (if c = CHR '','' then [] # split_comma cs
      else (case split_comma cs of [] \<Rightarrow> [[c]] | p # ps \<Rightarrow> (c # p) # ps))"

text \<open>The schema's pattern for an email, \<^verbatim>\<open>/^\S+@\S+\.\S+$/\<close>: no white space
  anywhere, an \<^verbatim>\<open>@\<close> after at least one character, and later a dot with at least
  one character on each side.\<close>

fun dot_inside :: "string \<Rightarrow> bool" where
  "dot_inside (c1 # c2 # cs) = ((c2 = CHR ''.'' \<and> cs \<noteq> []) \<or> dot_inside (c2 # cs))"
| "dot_inside cs = False"

fun at_then_dot :: "string \<Rightarrow> bool" where
  "at_then_dot (c1 # c2 # cs) = ((c2 = CHR ''@'' \<and> dot_inside cs) \<or> at_then_dot (c2 # cs))"
| "at_then_dot cs = False"

definition email_match :: "string \<Rightarrow> bool" where
  "email_match s = (list_all (\<lambda>c. \<not> is_space c) s \<and> at_then_dot s)"

subsection \<open>Errors, responses, the libraries\<close>

text \<open>A thrown error: its \<^verbatim>\<open>name\<close>, its \<^verbatim>\<open>message\<close>, and for a Mongoose
  \<^verbatim>\<open>ValidationError\<close> the messages of its \<^verbatim>\<open>errors\<close>.\<close>

datatype js_error = JsError (err_name: string) (err_message: string) (err_errors: "string list")

record public_student =
  pub_id :: nat
  pub_email :: "string option"
  pub_fullName :: "string option"
  pub_userType :: string

text \<open>What \<^verbatim>\<open>res.status(n).json({...})\<close> sends; a key the handler does not write
  is \<open>None\<close>.\<close>

record response =
  status :: nat
  success :: bool
  message :: string
  errors :: "string list option"
  error :: "string option"
  token :: "string option"
  res_student :: "public_student option"

definition json :: "nat \<Rightarrow> bool \<Rightarrow> string \<Rightarrow> response" where
  "json n ok msg =
     \<lparr>status = n, success = ok, message = msg, errors = None, error = None, token = None,
      res_student = None\<rparr>"

text \<open>The payload \<^verbatim>\<open>jwt.verify\<close> decodes.  The routes sign \<^verbatim>\<open>userId\<close> and
  \<^verbatim>\<open>email\<close>; \<^verbatim>\<open>iat\<close> and \<^verbatim>\<open>exp\<close> are optional claims of the token
  format (seconds).\<close>

record jwt_payload =
  tk_userId :: nat
  tk_email :: "string option"
  tk_iat :: "int option"
  tk_exp :: "int option"

record externs =
  env_JWT_SECRET :: "string option"
  jwt_sign :: "nat \<Rightarrow> string option \<Rightarrow> string \<Rightarrow> int \<Rightarrow> string"
  jwt_verify :: "string \<Rightarrow> string \<Rightarrow> int \<Rightarrow> js_error + jwt_payload"
  bcrypt_hash :: "string \<Rightarrow> string \<Rightarrow> js_error + string"
  bcrypt_compare :: "string \<Rightarrow> string \<Rightarrow> js_error + bool"
  cast_date :: "string \<Rightarrow> int option"

record call_ctx =
  now :: int
  salt :: string

subsection \<open>middleware/auth.js\<close>

text \<open>\<^verbatim>\<open>process.env.JWT_SECRET || '...'\<close>: the fallback also replaces an empty
  value.  The middleware and the routes have different fallbacks.\<close>

definition or_default :: "string option \<Rightarrow> string \<Rightarrow> string" where
  "or_default v d = (case v of None \<Rightarrow> d | Some s \<Rightarrow> if s = [] then d else s)"

definition JWT_SECRET :: "externs \<Rightarrow> string" where
  "JWT_SECRET ex = or_default (env_JWT_SECRET ex) ''your-secret-key-change-this-in-production''"

definition routes_secret :: "externs \<Rightarrow> string" where
  "routes_secret ex = or_default (env_JWT_SECRET ex) ''your-secret-key-change-this''"

text \<open>\<^verbatim>\<open>authHeader?.replace('Bearer ', '')\<close>; \<open>None\<close> is \<^verbatim>\<open>undefined\<close>.\<close>

definition bearer_token :: "string option \<Rightarrow> string option" where
  "bearer_token authHeader = map_option (replace_first ''Bearer '' []) authHeader"

text \<open>\<^verbatim>\<open>new Date(secs * 1000).toISOString()\<close> returns only for a time value within
  the range of \<^verbatim>\<open>Date\<close>; for a missing claim the product is \<^verbatim>\<open>NaN\<close> and the
  call throws a \<^verbatim>\<open>RangeError\<close>.\<close>

definition iso_ok :: "int option \<Rightarrow> bool" where
  "iso_ok secs = (case secs of None \<Rightarrow> False | Some t \<Rightarrow> \<bar>t * 1000\<bar> \<le> 8640000000000000)"

text \<open>The debug log between \<^verbatim>\<open>jwt.verify\<close> and \<^verbatim>\<open>req.user = decoded\<close>.\<close>

definition log_decoded :: "jwt_payload \<Rightarrow> js_error + jwt_payload" where
  "log_decoded decoded =
     (if iso_ok (tk_iat decoded) \<and> iso_ok (tk_exp decoded) then Inr decoded
      else Inl (JsError ''RangeError'' ''Invalid time value'' []))"

datatype mw_result = Respond response | Next jwt_payload

text \<open>The \<^verbatim>\<open>catch\<close> block of the middleware.\<close>

definition authenticate_catch :: "js_error \<Rightarrow> response" where
  "authenticate_catch e =
     (if err_name e = ''JsonWebTokenError'' then json 401 False ''Invalid token''
      else if err_name e = ''TokenExpiredError''
        then json 401 False ''Token expired. Please login again.''
      else (json 500 False ''Token verification failed'') \<lparr>error := Some (err_message e)\<rparr>)"

definition verify_and_log :: "externs \<Rightarrow> int \<Rightarrow> string \<Rightarrow> js_error + jwt_payload" where
  "verify_and_log ex t tok =
     (case jwt_verify ex tok (JWT_SECRET ex) t of
        Inl e \<Rightarrow> Inl e
      | Inr decoded \<Rightarrow> log_decoded decoded)"

definition authenticateToken :: "externs \<Rightarrow> int \<Rightarrow> string option \<Rightarrow> mw_result" where
  "authenticateToken ex t authHeader =
     (case bearer_token authHeader of
        None \<Rightarrow> Respond (json 401 False ''Access denied. No token provided.'')
      | Some tok \<Rightarrow>
          if tok = [] then Respond (json 401 False ''Access denied. No token provided.'')
          else (case verify_and_log ex t tok of
                  Inl e \<Rightarrow> Respond (authenticate_catch e)
                | Inr decoded \<Rightarrow> Next decoded))"

text \<open>A protected route, \<^verbatim>\<open>router.post(path, authenticateToken, handler)\<close>: the
  handler runs only when the middleware calls \<^verbatim>\<open>next()\<close>, and gets the payload as
  \<^verbatim>\<open>req.user\<close>.\<close>

definition protected ::
  "externs \<Rightarrow> int \<Rightarrow> string option \<Rightarrow> (jwt_payload \<Rightarrow> 'st \<Rightarrow> response \<times> 'st) \<Rightarrow> 'st \<Rightarrow> response \<times> 'st"
where
  "protected ex t authHeader handler st =
     (case authenticateToken ex t authHeader of
        Respond r \<Rightarrow> (r, st)
      | Next u \<Rightarrow> handler u st)"

subsection \<open>models/Student.js: the schema\<close>

text \<open>A \<^verbatim>\<open>Date\<close> path after Mongoose's cast: absent, a time value, or a string
  that failed the cast.\<close>

datatype date_cast = NoDate | DateVal int | BadDate string

record personal_info =
  address :: "string option"
  gender :: "string option"
  dateOfBirth :: date_cast
  mobileNo :: "string option"

record education_entry =
  courseName :: "string option"
  college :: "string option"
  edu_from :: "string option"
  edu_to :: "string option"

record certification =
  cert_title :: "string option"
  cert_specifications :: "string option"
  cert_description :: "string option"

record training =
  tr_title :: "string option"
  tr_company :: "string option"
  tr_from :: "string option"
  tr_to :: "string option"
  tr_description :: "string option"

text \<open>A student document, in memory and in the collection.  \<open>sid\<close> is \<^verbatim>\<open>_id\<close>;
  \<open>createdAt\<close> and \<open>updatedAt\<close> are the fields of the schema option
  \<^verbatim>\<open>timestamps: true\<close>.\<close>

record student =
  sid :: nat
  email :: "string option"
  password :: "string option"
  fullName :: "string option"
  userType :: string
  profileImage :: "string option"
  personalInfo :: personal_info
  education :: "education_entry list"
  skills :: "string list"
  coursesAndCertifications :: "certification list"
  trainingAndInternships :: "training list"
  passwordChangedAt :: "int option"
  passwordResetToken :: "string option"
  passwordResetExpires :: "int option"
  lastLoginAt :: "int option"
  lastLogoutAt :: "int option"
  createdAt :: "int option"
  updatedAt :: "int option"

text \<open>The setters of the path \<^verbatim>\<open>email\<close> (\<^verbatim>\<open>lowercase: true, trim: true\<close>).
  Mongoose applies a path's setters when a document field is set and, from version 5 on,
  when it casts a query filter on that path (the routes call
  \<^verbatim>\<open>countDocuments\<close> and \<^verbatim>\<open>findByIdAndDelete\<close>, which version 5 introduced).\<close>

definition normalize_email :: "string \<Rightarrow> string" where
  "normalize_email e = trim (toLowerCase e)"

text \<open>The validators of the schema; one message per failing path.  A \<^verbatim>\<open>required\<close>
  string path fails when it is absent or empty; \<^verbatim>\<open>match\<close>, \<^verbatim>\<open>minlength\<close>
  and \<^verbatim>\<open>enum\<close> are checked on a value that is present.\<close>

definition check_required :: "string option \<Rightarrow> string \<Rightarrow> string list" where
  "check_required v msg = (case v of None \<Rightarrow> [msg] | Some s \<Rightarrow> if s = [] then [msg] else [])"

definition validate_email :: "string option \<Rightarrow> string list" where
  "validate_email v =
     (case v of
        None \<Rightarrow> [''Email is required'']
      | Some s \<Rightarrow>
          if s = [] then [''Email is required'']
          else if email_match s then [] else [''Please provide a valid email''])"

definition validate_password :: "string option \<Rightarrow> string list" where
  "validate_password v =
     (case v of
        None \<Rightarrow> [''Password is required'']
      | Some s \<Rightarrow>
          if s = [] then [''Password is required'']
          else if length s < 6 then [''Password must be at least 6 characters''] else [])"

definition validate_gender :: "string option \<Rightarrow> string list" where
  "validate_gender v =
     (case v of
        None \<Rightarrow> [''Gender is required'']
      | Some s \<Rightarrow>
          if s = [] then [''Gender is required'']
          else if s \<in> {''male'', ''female'', ''other''} then []
          else [''`'' @ s @ ''` is not a valid enum value for path `personalInfo.gender`.''])"

definition validate_dateOfBirth :: "date_cast \<Rightarrow> string list" where
  "validate_dateOfBirth d =
     (case d of
        NoDate \<Rightarrow> [''Date of birth is required'']
      | DateVal t \<Rightarrow> []
      | BadDate v \<Rightarrow>
          [''Cast to date failed for value '' @ [CHR 0x22] @ v @ [CHR 0x22] @
           '' (type string) at path '' @ [CHR 0x22] @ ''personalInfo.dateOfBirth'' @ [CHR 0x22]])"

definition validate_personalInfo :: "personal_info \<Rightarrow> string list" where
  "validate_personalInfo p =
     check_required (address p) ''Address is required'' @ validate_gender (gender p) @
     validate_dateOfBirth (dateOfBirth p) @
     check_required (mobileNo p) ''Mobile number is required''"

definition validate_education :: "education_entry \<Rightarrow> string list" where
  "validate_education e =
     check_required (courseName e) ''Path `courseName` is required.'' @
     check_required (college e) ''Path `college` is required.''"

text \<open>A number in decimal, for the index in the path of an array element.\<close>

fun decimal :: "nat \<Rightarrow> string" where
  "decimal n =
     (if n < 10 then [char_of (48 + n)] else decimal (n div 10) @ [char_of (48 + n mod 10)])"

declare decimal.simps [simp del]

definition validate_skill :: "nat \<Rightarrow> string \<Rightarrow> string list" where
  "validate_skill i s =
     (if s = [] then [''Path `skills.'' @ decimal i @ ''` is required.''] else [])"

text \<open>The messages of all failing paths.  Their order is the order in which Mongoose
  collects the paths, which differs between its versions; the handlers read the list
  only as the \<^verbatim>\<open>errors\<close> of the 400 response, and a save goes on exactly when
  the list is empty.\<close>

definition validate :: "student \<Rightarrow> string list" where
  "validate d =
     validate_email (email d) @ validate_password (password d) @
     check_required (fullName d) ''Full name is required'' @
     validate_personalInfo (personalInfo d) @
     concat (map validate_education (education d)) @
     concat (map (\<lambda>(i, s). validate_skill i s) (enumerate 0 (skills d)))"

subsection \<open>models/Student.js: the pre-save hook and comparePassword\<close>

text \<open>\<^verbatim>\<open>studentSchema.pre('save')\<close>: the password is hashed only when
  \<^verbatim>\<open>this.isModified('password')\<close>; an error of the hook is passed to
  \<^verbatim>\<open>next\<close> and rejects the save.\<close>

definition pre_save :: "externs \<Rightarrow> string \<Rightarrow> bool \<Rightarrow> student \<Rightarrow> js_error + student" where
  "pre_save ex slt isModified_password this =
     (if \<not> isModified_password then Inr this
      else (case password this of
              None \<Rightarrow> Inl (JsError ''TypeError'' ''Cannot read properties of undefined (reading 'length')'' [])
            | Some plain \<Rightarrow>
                (case bcrypt_hash ex plain slt of
                   Inl e \<Rightarrow> Inl e
                 | Inr hashedPassword \<Rightarrow> Inr (this\<lparr>password := Some hashedPassword\<rparr>))))"

text \<open>The \<^verbatim>\<open>try\<close> block of \<^verbatim>\<open>comparePassword\<close>: reading \<^verbatim>\<open>.length\<close> of
  a missing candidate or \<^verbatim>\<open>.substring\<close> of a missing stored password throws, and so
  may \<^verbatim>\<open>bcrypt.compare\<close>.\<close>

definition compare_try :: "externs \<Rightarrow> student \<Rightarrow> string option \<Rightarrow> js_error + bool" where
  "compare_try ex this candidatePassword =
     (case candidatePassword of
        None \<Rightarrow> Inl (JsError ''TypeError'' ''Cannot read properties of undefined (reading 'length')'' [])
      | Some c \<Rightarrow>
          (case password this of
             None \<Rightarrow> Inl (JsError ''TypeError'' ''Cannot read properties of undefined (reading 'substring')'' [])
           | Some h \<Rightarrow> bcrypt_compare ex c h))"

text \<open>\<^verbatim>\<open>comparePassword\<close>: the \<^verbatim>\<open>catch\<close> block returns \<^verbatim>\<open>false\<close>.  The
  result is a sum so that "the returned promise rejects" can be stated: it would be
  \<open>Inl\<close>.\<close>

definition comparePassword :: "externs \<Rightarrow> student \<Rightarrow> string option \<Rightarrow> js_error + bool" where
  "comparePassword ex this candidatePassword =
     (case compare_try ex this candidatePassword of
        Inl e \<Rightarrow> Inr False
      | Inr isMatch \<Rightarrow> Inr isMatch)"

subsection \<open>The collection\<close>

text \<open>\<^verbatim>\<open>Student.findOne({ email })\<close>: the filter value is cast with the setters of
  the path, then compared with the stored values; an \<^verbatim>\<open>undefined\<close> value is sent
  as \<^verbatim>\<open>null\<close> and matches a document without the field.\<close>

definition findOne_email :: "student list \<Rightarrow> string option \<Rightarrow> student option" where
  "findOne_email st q = find (\<lambda>s. email s = map_option normalize_email q) st"

definition findById :: "student list \<Rightarrow> nat \<Rightarrow> student option" where
  "findById st i = find (\<lambda>s. sid s = i) st"

text \<open>The \<^verbatim>\<open>_id\<close> of a new document: one that no stored document has.\<close>

definition fresh_id :: "student list \<Rightarrow> nat" where
  "fresh_id st = Suc (fold max (map sid st) 0)"

text \<open>An insert is refused by the unique index on \<^verbatim>\<open>email\<close>.\<close>

definition insert_doc :: "student list \<Rightarrow> student \<Rightarrow> js_error + student list" where
  "insert_doc st d =
     (if email d \<in> set (map email st)
      then Inl (JsError ''MongoServerError'' ''E11000 duplicate key error'' [])
      else Inr (st @ [d]))"

fun update_by_id :: "student list \<Rightarrow> student \<Rightarrow> student list" where
  "update_by_id [] d = []"
| "update_by_id (s # st) d = (if sid s = sid d then d # st else s # update_by_id st d)"

text \<open>\<^verbatim>\<open>doc.save()\<close>: validation, the pre-save hook, the timestamps, the write.\<close>

definition validation_error :: "student \<Rightarrow> js_error" where
  "validation_error d = JsError ''ValidationError'' ''Student validation failed'' (validate d)"

definition save_new ::
  "externs \<Rightarrow> call_ctx \<Rightarrow> student list \<Rightarrow> student \<Rightarrow> js_error + student \<times> student list"
where
  "save_new ex cx st d =
     (if validate d \<noteq> [] then Inl (validation_error d)
      else (case pre_save ex (salt cx) (password d \<noteq> None) d of
              Inl e \<Rightarrow> Inl e
            | Inr h \<Rightarrow>
                (case insert_doc st (h\<lparr>createdAt := Some (now cx), updatedAt := Some (now cx)\<rparr>) of
                   Inl e \<Rightarrow> Inl e
                 | Inr st' \<Rightarrow> Inr (h\<lparr>createdAt := Some (now cx), updatedAt := Some (now cx)\<rparr>, st'))))"

definition save_existing ::
  "externs \<Rightarrow> call_ctx \<Rightarrow> student list \<Rightarrow> bool \<Rightarrow> student \<Rightarrow> js_error + student \<times> student list"
where
  "save_existing ex cx st isModified_password d =
     (if validate d \<noteq> [] then Inl (validation_error d)
      else (case pre_save ex (salt cx) isModified_password d of
              Inl e \<Rightarrow> Inl e
            | Inr h \<Rightarrow>
                Inr (h\<lparr>updatedAt := Some (now cx)\<rparr>,
                     update_by_id st (h\<lparr>updatedAt := Some (now cx)\<rparr>))))"

text \<open>\<^verbatim>\<open>Student.findByIdAndUpdate(id, { lastLogoutAt: new Date() })\<close>: no validation
  and no save hook; with \<^verbatim>\<open>timestamps: true\<close> Mongoose adds \<^verbatim>\<open>updatedAt\<close> to
  the update.\<close>

fun findByIdAndUpdate_lastLogoutAt :: "student list \<Rightarrow> nat \<Rightarrow> int \<Rightarrow> student list" where
  "findByIdAndUpdate_lastLogoutAt [] i t = []"
| "findByIdAndUpdate_lastLogoutAt (s # st) i t =
     (if sid s = i then s\<lparr>lastLogoutAt := Some t, updatedAt := Some t\<rparr> # st
      else s # findByIdAndUpdate_lastLogoutAt st i t)"

subsection \<open>routes/auth.js: register\<close>

text \<open>The \<^verbatim>\<open>skills\<close> key of the body: absent, a string, or an array of strings.\<close>

datatype skills_field = SkillsAbsent | SkillsString string | SkillsArray "string list"

record register_body =
  rb_email :: "string option"
  rb_password :: "string option"
  rb_fullName :: "string option"
  rb_address :: "string option"
  rb_gender :: "string option"
  rb_dateOfBirth :: "string option"
  rb_mobileNo :: "string option"
  rb_courseName :: "string option"
  rb_college :: "string option"
  rb_educationFrom :: "string option"
  rb_educationTo :: "string option"
  rb_skills :: skills_field
  rb_certificationTitle :: "string option"
  rb_certificationSpecs :: "string option"
  rb_certificationDesc :: "string option"
  rb_trainingTitle :: "string option"
  rb_trainingCompany :: "string option"
  rb_trainingFrom :: "string option"
  rb_trainingTo :: "string option"
  rb_trainingDesc :: "string option"

text \<open>JavaScript truthiness of a string or \<^verbatim>\<open>undefined\<close>.\<close>

definition truthy :: "string option \<Rightarrow> bool" where
  "truthy v = (case v of None \<Rightarrow> False | Some s \<Rightarrow> s \<noteq> [])"

text \<open>\<^verbatim>\<open>Array.isArray(skills) ? skills : skills.split(',').map(s => s.trim())\<close>:
  on a missing \<^verbatim>\<open>skills\<close> the call of \<^verbatim>\<open>split\<close> throws a
  \<^verbatim>\<open>TypeError\<close>.\<close>

definition skills_of :: "skills_field \<Rightarrow> js_error + string list" where
  "skills_of sk =
     (case sk of
        SkillsArray xs \<Rightarrow> Inr xs
      | SkillsString s \<Rightarrow> Inr (map trim (split_comma s))
      | SkillsAbsent \<Rightarrow>
          Inl (JsError ''TypeError'' ''Cannot read properties of undefined (reading 'split')'' []))"

text \<open>(The messages of a \<^verbatim>\<open>TypeError\<close> are worded as V8 words them.)\<close>

definition cast_dateOfBirth :: "externs \<Rightarrow> string option \<Rightarrow> date_cast" where
  "cast_dateOfBirth ex v =
     (case v of
        None \<Rightarrow> NoDate
      | Some s \<Rightarrow>
          if s = [] then NoDate
          else (case cast_date ex s of None \<Rightarrow> BadDate s | Some t \<Rightarrow> DateVal t))"

text \<open>\<^verbatim>\<open>new Student(studentData)\<close>: the object the handler builds, cast by the
  schema (setters, defaults).\<close>

definition new_Student :: "externs \<Rightarrow> student list \<Rightarrow> register_body \<Rightarrow> string list \<Rightarrow> student" where
  "new_Student ex st b sk =
     \<lparr>sid = fresh_id st,
      email = map_option normalize_email (rb_email b),
      password = rb_password b,
      fullName = map_option trim (rb_fullName b),
      userType = ''student'',
      profileImage = None,
      personalInfo =
        \<lparr>address = rb_address b, gender = rb_gender b,
         dateOfBirth = cast_dateOfBirth ex (rb_dateOfBirth b), mobileNo = rb_mobileNo b\<rparr>,
      education =
        [\<lparr>courseName = rb_courseName b, college = rb_college b,
          edu_from = rb_educationFrom b, edu_to = rb_educationTo b\<rparr>],
      skills = sk,
      coursesAndCertifications =
        (if truthy (rb_certificationTitle b)
         then [\<lparr>cert_title = rb_certificationTitle b,
                cert_specifications = rb_certificationSpecs b,
                cert_description = rb_certificationDesc b\<rparr>]
         else []),
      trainingAndInternships =
        (if truthy (rb_trainingTitle b)
         then [\<lparr>tr_title = rb_trainingTitle b, tr_company = rb_trainingCompany b,
                tr_from = rb_trainingFrom b, tr_to = rb_trainingTo b,
                tr_description = rb_trainingDesc b\<rparr>]
         else []),
      passwordChangedAt = None, passwordResetToken = None, passwordResetExpires = None,
      lastLoginAt = None, lastLogoutAt = None, createdAt = None, updatedAt = None\<rparr>"

definition public_of :: "student \<Rightarrow> public_student" where
  "public_of s =
     \<lparr>pub_id = sid s, pub_email = email s, pub_fullName = fullName s, pub_userType = userType s\<rparr>"

definition issue_token :: "externs \<Rightarrow> call_ctx \<Rightarrow> student \<Rightarrow> string" where
  "issue_token ex cx s = jwt_sign ex (sid s) (email s) (routes_secret ex) (now cx)"

definition register_catch :: "js_error \<Rightarrow> response" where
  "register_catch e =
     (if err_name e = ''ValidationError''
      then (json 400 False ''Validation error'') \<lparr>errors := Some (err_errors e)\<rparr>
      else (json 500 False ''Server error during registration'') \<lparr>error := Some (err_message e)\<rparr>)"

definition register ::
  "externs \<Rightarrow> call_ctx \<Rightarrow> student list \<Rightarrow> register_body \<Rightarrow> response \<times> student list"
where
  "register ex cx st b =
     (case findOne_email st (rb_email b) of
        Some existingStudent \<Rightarrow> (json 400 False ''Email already registered'', st)
      | None \<Rightarrow>
          (case skills_of (rb_skills b) of
             Inl e \<Rightarrow> (register_catch e, st)
           | Inr sk \<Rightarrow>
               (case save_new ex cx st (new_Student ex st b sk) of
                  Inl e \<Rightarrow> (register_catch e, st)
                | Inr (s, st') \<Rightarrow>
                    ((json 201 True ''Student registered successfully'')
                       \<lparr>token := Some (issue_token ex cx s), res_student := Some (public_of s)\<rparr>,
                     st'))))"

subsection \<open>routes/auth.js: login\<close>

record login_body =
  lb_email :: "string option"
  lb_password :: "string option"

definition login_catch :: "js_error \<Rightarrow> response" where
  "login_catch e = (json 500 False ''Server error during login'') \<lparr>error := Some (err_message e)\<rparr>"

definition login ::
  "externs \<Rightarrow> call_ctx \<Rightarrow> student list \<Rightarrow> login_body \<Rightarrow> response \<times> student list"
where
  "login ex cx st b =
     (if \<not> truthy (lb_email b) \<or> \<not> truthy (lb_password b)
      then (json 400 False ''Please provide email and password'', st)
      else (case findOne_email st (lb_email b) of
              None \<Rightarrow> (json 401 False ''Invalid email or password'', st)
            | Some s \<Rightarrow>
                (case password s of
                   None \<Rightarrow>
                     (login_catch
                        (JsError ''TypeError'' ''Cannot read properties of undefined (reading 'substring')'' []),
                      st)
                 | Some h \<Rightarrow>
                     (case comparePassword ex s (lb_password b) of
                        Inl e \<Rightarrow> (login_catch e, st)
                      | Inr isMatch \<Rightarrow>
                          if \<not> isMatch then (json 401 False ''Invalid email or password'', st)
                          else (case save_existing ex cx st False (s\<lparr>lastLoginAt := Some (now cx)\<rparr>) of
                                  Inl e \<Rightarrow> (login_catch e, st)
                                | Inr (s', st') \<Rightarrow>
                                    ((json 200 True ''Login successful'')
                                       \<lparr>token := Some (issue_token ex cx s'),
                                        res_student := Some (public_of s')\<rparr>,
                                     st'))))))"

subsection \<open>routes/auth.js: change-password and logout\<close>

record password_body =
  newPassword :: "string option"
  confirmPassword :: "string option"

definition change_password_catch :: "js_error \<Rightarrow> response" where
  "change_password_catch e =
     (json 500 False ''Failed to change password'') \<lparr>error := Some (err_message e)\<rparr>"

text \<open>The handler after the validation of the body: \<^verbatim>\<open>student.password = newPassword\<close>
  marks the path modified only when the value differs from the one loaded.\<close>

definition set_password ::
  "externs \<Rightarrow> call_ctx \<Rightarrow> student list \<Rightarrow> student \<Rightarrow> string \<Rightarrow> response \<times> student list"
where
  "set_password ex cx st s new =
     (case save_existing ex cx st (password s \<noteq> Some new)
             (s\<lparr>password := Some new, passwordChangedAt := Some (now cx)\<rparr>) of
        Inl e \<Rightarrow> (change_password_catch e, st)
      | Inr (s', st') \<Rightarrow>
          (case findById st' (sid s) of
             None \<Rightarrow>
               (change_password_catch
                  (JsError ''TypeError'' ''Cannot read properties of null (reading 'password')'' []),
                st')
           | Some updatedStudent \<Rightarrow>
               (case password updatedStudent of
                  None \<Rightarrow>
                    (change_password_catch
                       (JsError ''TypeError'' ''Cannot read properties of undefined (reading 'substring')'' []),
                     st')
                | Some h \<Rightarrow>
                    (case bcrypt_compare ex new h of
                       Inl e \<Rightarrow> (change_password_catch e, st')
                     | Inr testMatch \<Rightarrow>
                         if \<not> testMatch
                         then (json 500 False ''Password update failed. Please try again.'', st')
                         else (json 200 True ''Password changed successfully'', st')))))"

definition change_password ::
  "externs \<Rightarrow> call_ctx \<Rightarrow> jwt_payload \<Rightarrow> password_body \<Rightarrow> student list \<Rightarrow> response \<times> student list"
where
  "change_password ex cx user b st =
     (case (newPassword b, confirmPassword b) of
        (Some new, Some confirm) \<Rightarrow>
          if new = [] \<or> confirm = []
          then (json 400 False ''Please provide both new password and confirmation'', st)
          else if new \<noteq> confirm then (json 400 False ''Passwords do not match'', st)
          else if length new < 6
            then (json 400 False ''Password must be at least 6 characters long'', st)
          else (case findById st (tk_userId user) of
                  None \<Rightarrow> (json 404 False ''Student not found'', st)
                | Some s \<Rightarrow>
                    (case password s of
                       None \<Rightarrow>
                         (change_password_catch
                            (JsError ''TypeError'' ''Cannot read properties of undefined (reading 'substring')'' []),
                          st)
                     | Some old \<Rightarrow> set_password ex cx st s new))
      | _ \<Rightarrow> (json 400 False ''Please provide both new password and confirmation'', st))"

definition logout :: "call_ctx \<Rightarrow> jwt_payload \<Rightarrow> student list \<Rightarrow> response \<times> student list" where
  "logout cx user st =
     (json 200 True ''Logged out successfully'',
      findByIdAndUpdate_lastLogoutAt st (tk_userId user) (now cx))"

subsection \<open>Example requests\<close>

text \<open>Stand-ins for the libraries, used only to run the handlers on concrete requests.
  \<open>ex_hash\<close> appends to the 29 characters of the salt a digest of 31 characters, the
  reversed password padded with dots, and \<open>ex_compare\<close> recomputes it; as bcryptjs
  does, \<open>ex_compare\<close> answers \<^verbatim>\<open>false\<close> for a stored value that is not 60
  characters long and throws on one of 60 characters that does not start like a bcrypt
  hash.  \<open>ex_verify\<close> lists the outcome of \<^verbatim>\<open>jwt.verify\<close> for five tokens: two
  that verify (one of them signed without \<^verbatim>\<open>exp\<close>), an expired one, one not yet
  active, and anything else malformed.\<close>

definition ex_digest :: "string \<Rightarrow> string" where
  "ex_digest plain = take 31 (rev plain @ replicate 31 (CHR ''.''))"

definition ex_hash :: "string \<Rightarrow> string \<Rightarrow> js_error + string" where
  "ex_hash plain slt = Inr (slt @ ex_digest plain)"

definition ex_compare :: "string \<Rightarrow> string \<Rightarrow> js_error + bool" where
  "ex_compare c h =
     (if length h \<noteq> 60 then Inr False
      else if take 2 h \<noteq> ''$2''
        then Inl (JsError ''Error'' (''Invalid salt version: '' @ take 2 h) [])
      else Inr (drop 29 h = ex_digest c))"

definition ex_sign :: "nat \<Rightarrow> string option \<Rightarrow> string \<Rightarrow> int \<Rightarrow> string" where
  "ex_sign uid em secret t = ''signed:'' @ (case em of None \<Rightarrow> [] | Some e \<Rightarrow> e)"

definition ex_payload :: jwt_payload where
  "ex_payload =
     \<lparr>tk_userId = 1, tk_email = Some ''alice@example.com'', tk_iat = Some 1700000000,
      tk_exp = Some 1700604800\<rparr>"

definition ex_verify :: "string \<Rightarrow> string \<Rightarrow> int \<Rightarrow> js_error + jwt_payload" where
  "ex_verify tok secret t =
     (if tok = ''good'' then Inr ex_payload
      else if tok = ''noexp'' then Inr (ex_payload\<lparr>tk_exp := None\<rparr>)
      else if tok = ''old'' then Inl (JsError ''TokenExpiredError'' ''jwt expired'' [])
      else if tok = ''early'' then Inl (JsError ''NotBeforeError'' ''jwt not active'' [])
      else Inl (JsError ''JsonWebTokenError'' ''jwt malformed'' []))"

definition ex_date :: "string \<Rightarrow> int option" where
  "ex_date s = (if s = ''2000-01-01'' then Some 946684800000 else None)"

definition ex_externs :: externs where
  "ex_externs =
     \<lparr>env_JWT_SECRET = None, jwt_sign = ex_sign, jwt_verify = ex_verify,
      bcrypt_hash = ex_hash, bcrypt_compare = ex_compare, cast_date = ex_date\<rparr>"

definition ex_ctx :: call_ctx where
  "ex_ctx = \<lparr>now = 1700000000000, salt = ''$2a$10$abcdefghijklmnopqrstuv''\<rparr>"

definition ex_body :: register_body where
  "ex_body =
     \<lparr>rb_email = Some ''Alice@Example.com'', rb_password = Some ''secret1'',
      rb_fullName = Some ''Alice'', rb_address = Some ''1 Main St'',
      rb_gender = Some ''female'', rb_dateOfBirth = Some ''2000-01-01'',
      rb_mobileNo = Some ''12345'', rb_courseName = Some ''BSc'', rb_college = Some ''MIT'',
      rb_educationFrom = None, rb_educationTo = None, rb_skills = SkillsString ''js, hol'',
      rb_certificationTitle = None, rb_certificationSpecs = None,
      rb_certificationDesc = None, rb_trainingTitle = None, rb_trainingCompany = None,
      rb_trainingFrom = None, rb_trainingTo = None, rb_trainingDesc = None\<rparr>"

text \<open>The document that registering \<open>ex_body\<close> in an empty collection stores.\<close>

definition ex_alice :: student where
  "ex_alice =
     \<lparr>sid = 1, email = Some ''alice@example.com'',
      password = Some ''$2a$10$abcdefghijklmnopqrstuv1terces........................'', fullName = Some ''Alice'',
      userType = ''student'', profileImage = None,
      personalInfo =
        \<lparr>address = Some ''1 Main St'', gender = Some ''female'',
         dateOfBirth = DateVal 946684800000, mobileNo = Some ''12345''\<rparr>,
      education =
        [\<lparr>courseName = Some ''BSc'', college = Some ''MIT'', edu_from = None, edu_to = None\<rparr>],
      skills = [''js'', ''hol''], coursesAndCertifications = [], trainingAndInternships = [],
      passwordChangedAt = None, passwordResetToken = None, passwordResetExpires = None,
      lastLoginAt = None, lastLogoutAt = None, createdAt = Some 1700000000000,
      updatedAt = Some 1700000000000\<rparr>"

definition ex_later :: call_ctx where
  "ex_later = \<lparr>now = 1700000500000, salt = ''$2a$10$ABCDEFGHIJKLMNOPQRSTUV''\<rparr>"

subsection \<open>Stored passwords\<close>

text \<open>A stored password value that \<^verbatim>\<open>bcrypt.hash\<close> has returned for some plaintext
  and salt, and a collection in which every stored password is one.\<close>

definition hash_output :: "externs \<Rightarrow> string option \<Rightarrow> bool" where
  "hash_output ex v = (\<exists>plain slt h. v = Some h \<and> bcrypt_hash ex plain slt = Inr h)"

definition all_hashed :: "externs \<Rightarrow> student list \<Rightarrow> bool" where
  "all_hashed ex st = (\<forall>s \<in> set st. hash_output ex (password s))"

text \<open>The states of the collection that the account lifecycle reaches from the empty
  collection: by a registration, a login, a password change or a logout, with any
  request, clock reading, salt and token payload.\<close>

inductive reachable :: "externs \<Rightarrow> student list \<Rightarrow> bool" for ex :: externs where
  reach_empty: "reachable ex []"
| reach_register: "reachable ex st \<Longrightarrow> reachable ex (snd (register ex cx st rb))"
| reach_login: "reachable ex st \<Longrightarrow> reachable ex (snd (login ex cx st lb))"
| reach_change_password:
    "reachable ex st \<Longrightarrow> reachable ex (snd (change_password ex cx user pb st))"
| reach_logout: "reachable ex st \<Longrightarrow> reachable ex (snd (logout cx user st))"

section \<open>Properties\<close>

subsection \<open>The bearer token\<close>

lemma replace_first_empty:
  assumes "replace_first pat [] h = []"
  shows "h = [] \<or> h = pat"
proof (cases h)
  case Nil
  then show ?thesis by simp
next
  case (Cons c cs)
  show ?thesis
  proof (cases "take (length pat) h = pat")
    case True
    with assms Cons have "drop (length pat) h = []" by simp
    then have "take (length pat) h = h" by simp
    with True show ?thesis by simp
  next
    case False
    with assms Cons show ?thesis by simp
  qed
qed

lemma replace_first_no_occurrence:
  "\<not> occurs_in pat h \<Longrightarrow> replace_first pat rep h = h"
  by (induction h) auto

lemma authenticate_catch_not_no_token:
  "authenticate_catch e \<noteq> json 401 False ''Access denied. No token provided.''"
  by (simp add: authenticate_catch_def json_def)

lemma authenticateToken_no_token_iff:
  "authenticateToken ex t hdr = Respond (json 401 False ''Access denied. No token provided.'')
     \<longleftrightarrow> (hdr = None \<or> bearer_token hdr = Some [])"
  by (cases hdr)
     (auto simp: authenticateToken_def bearer_token_def authenticate_catch_not_no_token
           split: sum.splits)

text \<open>
  \<^bold>\<open>C9\<close>, as the code has it.  A non-empty \<^verbatim>\<open>Authorization\<close> header that does not
  begin with \<^verbatim>\<open>Bearer \<close> is not answered with the no-token response: the middleware
  removes the first occurrence of \<^verbatim>\<open>Bearer \<close>, wherever it stands in the header,
  and hands the rest, which is not empty, to the verifier; a header without any
  occurrence is handed over entire.  The no-token response is sent exactly when the
  header is absent or the extracted token is the empty string.
\<close>

theorem authenticateToken_extraction:
  assumes "h \<noteq> []" and "take 7 h \<noteq> ''Bearer ''"
  shows "bearer_token (Some h) = Some (replace_first ''Bearer '' [] h)
    \<and> replace_first ''Bearer '' [] h \<noteq> []
    \<and> authenticateToken ex t (Some h) =
        (case verify_and_log ex t (replace_first ''Bearer '' [] h) of
           Inl e \<Rightarrow> Respond (authenticate_catch e)
         | Inr decoded \<Rightarrow> Next decoded)
    \<and> authenticateToken ex t (Some h) \<noteq> Respond (json 401 False ''Access denied. No token provided.'')
    \<and> (\<not> occurs_in ''Bearer '' h \<longrightarrow> replace_first ''Bearer '' [] h = h)
    \<and> (\<forall>hdr. (authenticateToken ex t hdr = Respond (json 401 False ''Access denied. No token provided.''))
           = (hdr = None \<or> bearer_token hdr = Some []))"
proof -
  have ne: "replace_first ''Bearer '' [] h \<noteq> []"
  proof
    assume "replace_first ''Bearer '' [] h = []"
    then have "h = [] \<or> h = ''Bearer ''" by (rule replace_first_empty)
    with assms show False by auto
  qed
  have tok: "bearer_token (Some h) = Some (replace_first ''Bearer '' [] h)"
    by (simp add: bearer_token_def)
  have run: "authenticateToken ex t (Some h) =
        (case verify_and_log ex t (replace_first ''Bearer '' [] h) of
           Inl e \<Rightarrow> Respond (authenticate_catch e)
         | Inr decoded \<Rightarrow> Next decoded)"
    using ne by (simp add: authenticateToken_def tok)
  have no: "authenticateToken ex t (Some h) \<noteq> Respond (json 401 False ''Access denied. No token provided.'')"
    using ne by (simp add: authenticateToken_no_token_iff tok)
  have whole: "\<not> occurs_in ''Bearer '' h \<longrightarrow> replace_first ''Bearer '' [] h = h"
    using replace_first_no_occurrence by blast
  show ?thesis using ne tok run no whole authenticateToken_no_token_iff by blast
qed

theorem authenticateToken_extraction_witness:
  "''Token abc'' \<noteq> [] \<and> take 7 ''Token abc'' \<noteq> ''Bearer ''
   \<and> bearer_token (Some ''Token abc'') = Some ''Token abc''
   \<and> authenticateToken ex_externs 0 (Some ''Token abc'') = Respond (json 401 False ''Invalid token'')
   \<and> authenticateToken ex_externs 0 (Some ''good'') = Next ex_payload"
proof -
  have a: "''good'' \<noteq> []" "take 7 ''good'' \<noteq> ''Bearer ''" by simp_all
  have b: "''Token abc'' \<noteq> []" "take 7 ''Token abc'' \<noteq> ''Bearer ''" by simp_all
  have v1: "verify_and_log ex_externs 0 ''good'' = Inr ex_payload" by code_simp
  have v2: "verify_and_log ex_externs 0 ''Token abc'' =
      Inl (JsError ''JsonWebTokenError'' ''jwt malformed'' [])" by code_simp
  have c: "authenticate_catch (JsError ''JsonWebTokenError'' ''jwt malformed'' []) =
      json 401 False ''Invalid token''"
    by (simp add: authenticate_catch_def)
  from authenticateToken_extraction [OF a, of ex_externs 0]
       authenticateToken_extraction [OF b, of ex_externs 0]
  show ?thesis by (simp add: v1 v2 c)
qed

text \<open>
  The header \<^verbatim>\<open>goBearer od\<close> is not empty and does not begin with \<^verbatim>\<open>Bearer \<close>,
  yet the verifier is not given the entire header: it is given \<^verbatim>\<open>good\<close>, the header
  without its inner \<^verbatim>\<open>Bearer \<close>.  With the example verifier the request is let
  through, where the entire header would have been refused as malformed.
\<close>

theorem bearer_token_inner_occurrence:
  "''goBearer od'' \<noteq> [] \<and> take 7 ''goBearer od'' \<noteq> ''Bearer ''
   \<and> bearer_token (Some ''goBearer od'') = Some ''good''
   \<and> bearer_token (Some ''goBearer od'') \<noteq> Some ''goBearer od''
   \<and> authenticateToken ex_externs 0 (Some ''goBearer od'') = Next ex_payload
   \<and> verify_and_log ex_externs 0 ''goBearer od'' =
       Inl (JsError ''JsonWebTokenError'' ''jwt malformed'' [])"
  by code_simp

subsection \<open>The middleware by cases\<close>

lemma authenticateToken_absent:
  "authenticateToken ex t None = Respond (json 401 False ''Access denied. No token provided.'')"
  by (simp add: authenticateToken_def bearer_token_def)

lemma authenticateToken_outcomes:
  assumes "bearer_token hdr = Some tok" and "tok \<noteq> []"
  shows "jwt_verify ex tok (JWT_SECRET ex) t = Inl e \<Longrightarrow> err_name e = ''JsonWebTokenError'' \<Longrightarrow>
           authenticateToken ex t hdr = Respond (json 401 False ''Invalid token'')"
    and "jwt_verify ex tok (JWT_SECRET ex) t = Inl e \<Longrightarrow> err_name e = ''TokenExpiredError'' \<Longrightarrow>
           authenticateToken ex t hdr =
             Respond (json 401 False ''Token expired. Please login again.'')"
    and "jwt_verify ex tok (JWT_SECRET ex) t = Inl e \<Longrightarrow> err_name e \<noteq> ''JsonWebTokenError'' \<Longrightarrow>
         err_name e \<noteq> ''TokenExpiredError'' \<Longrightarrow>
           authenticateToken ex t hdr =
             Respond ((json 500 False ''Token verification failed'') \<lparr>error := Some (err_message e)\<rparr>)"
    and "jwt_verify ex tok (JWT_SECRET ex) t = Inr d \<Longrightarrow> iso_ok (tk_iat d) \<Longrightarrow> iso_ok (tk_exp d) \<Longrightarrow>
           authenticateToken ex t hdr = Next d"
    and "jwt_verify ex tok (JWT_SECRET ex) t = Inr d \<Longrightarrow> \<not> (iso_ok (tk_iat d) \<and> iso_ok (tk_exp d)) \<Longrightarrow>
           authenticateToken ex t hdr =
             Respond ((json 500 False ''Token verification failed'')
                        \<lparr>error := Some ''Invalid time value''\<rparr>)"
  using assms
  by (auto simp: authenticateToken_def verify_and_log_def authenticate_catch_def log_decoded_def)

text \<open>
  \<^bold>\<open>C3\<close>.  Without a token the middleware answers 401; on a
  \<^verbatim>\<open>JsonWebTokenError\<close> 401 with the invalid-token message; on a
  \<^verbatim>\<open>TokenExpiredError\<close> 401 with the token-expired message; on any other error 500
  (\<open>authenticateToken_absent\<close>, \<open>authenticateToken_outcomes\<close>).  A verified token
  whose payload has \<^verbatim>\<open>iat\<close> and \<^verbatim>\<open>exp\<close> within the range of \<^verbatim>\<open>Date\<close> is
  attached to the request, which continues.  A token that verifies but carries no
  \<^verbatim>\<open>exp\<close> is not let through: the debug log between \<^verbatim>\<open>jwt.verify\<close> and
  \<^verbatim>\<open>req.user = decoded\<close> throws a \<^verbatim>\<open>RangeError\<close>, and the request is answered
  with the 500 response.  Below, the verifier accepts the token \<^verbatim>\<open>noexp\<close>, and the
  middleware does not continue.
\<close>

theorem authenticateToken_verified_without_exp:
  "jwt_verify ex_externs ''noexp'' (JWT_SECRET ex_externs) 0 = Inr (ex_payload\<lparr>tk_exp := None\<rparr>)
   \<and> authenticateToken ex_externs 0 (Some ''Bearer noexp'') =
       Respond ((json 500 False ''Token verification failed'') \<lparr>error := Some ''Invalid time value''\<rparr>)"
  by code_simp

subsection \<open>comparePassword\<close>

text \<open>
  \<^bold>\<open>C8\<close>, as the code has it.  \<^verbatim>\<open>comparePassword\<close> never throws.  It returns the
  boolean of \<^verbatim>\<open>bcrypt.compare\<close>, so \<^verbatim>\<open>false\<close> for a password that does not
  match, and it returns \<^verbatim>\<open>false\<close> as well whenever the comparison throws, as on a
  malformed stored hash.
\<close>

theorem comparePassword_never_throws:
  "comparePassword ex s c \<noteq> Inl e
   \<and> comparePassword ex s c =
       Inr (case compare_try ex s c of Inl e' \<Rightarrow> False | Inr isMatch \<Rightarrow> isMatch)
   \<and> comparePassword ex (s\<lparr>password := Some h\<rparr>) (Some p) =
       Inr (case bcrypt_compare ex p h of Inl e' \<Rightarrow> False | Inr isMatch \<Rightarrow> isMatch)"
  by (simp add: comparePassword_def compare_try_def split: sum.splits)

theorem comparePassword_never_throws_witness:
  "comparePassword ex_externs ex_alice (Some ''secret1'') = Inr True
   \<and> comparePassword ex_externs ex_alice (Some ''secret2'') = Inr False"
proof -
  have a: "compare_try ex_externs ex_alice (Some ''secret1'') = Inr True" by code_simp
  have b: "compare_try ex_externs ex_alice (Some ''secret2'') = Inr False" by code_simp
  from comparePassword_never_throws [of ex_externs ex_alice "Some ''secret1''"]
       comparePassword_never_throws [of ex_externs ex_alice "Some ''secret2''"]
  show ?thesis by (simp add: a b)
qed

text \<open>
  The stored value below has the length of a bcrypt hash and is none: the comparison
  throws on it.  \<^verbatim>\<open>comparePassword\<close> does not fail, it returns \<^verbatim>\<open>false\<close>.
\<close>

theorem comparePassword_malformed_hash:
  "bcrypt_compare ex_externs ''secret1''
       ''plaintext-plaintext-plaintext-plaintext-plaintext-plaintext-'' =
     Inl (JsError ''Error'' ''Invalid salt version: pl'' [])
   \<and> comparePassword ex_externs
       (ex_alice\<lparr>password := Some ''plaintext-plaintext-plaintext-plaintext-plaintext-plaintext-''\<rparr>)
       (Some ''secret1'') = Inr False"
  by code_simp

subsection \<open>Login failures\<close>

text \<open>
  \<^bold>\<open>C2\<close>.  A login for an email that no account has and a login for the email of an
  account (which has a stored password, as the schema requires) with a password that
  does not verify get the same response, status 401 with the body
  \<^verbatim>\<open>{success: false, message: "Invalid email or password"}\<close>; neither changes the
  collection.
\<close>

theorem login_failures_identical:
  assumes "truthy (lb_email b1)" and "truthy (lb_password b1)"
      and "findOne_email st (lb_email b1) = None"
      and "truthy (lb_email b2)" and "truthy (lb_password b2)"
      and "findOne_email st (lb_email b2) = Some s" and "password s = Some h"
      and "comparePassword ex s (lb_password b2) = Inr False"
  shows "login ex cx st b1 = (json 401 False ''Invalid email or password'', st)
       \<and> login ex cx st b2 = (json 401 False ''Invalid email or password'', st)
       \<and> fst (login ex cx st b1) = fst (login ex cx st b2)"
  using assms by (simp add: login_def)

theorem login_failures_identical_witness:
  "login ex_externs ex_ctx [ex_alice]
      \<lparr>lb_email = Some ''bob@example.com'', lb_password = Some ''secret1''\<rparr>
     = (json 401 False ''Invalid email or password'', [ex_alice])
   \<and> login ex_externs ex_ctx [ex_alice]
      \<lparr>lb_email = Some ''alice@example.com'', lb_password = Some ''wrong-password''\<rparr>
     = (json 401 False ''Invalid email or password'', [ex_alice])"
proof -
  let ?b1 = "\<lparr>lb_email = Some ''bob@example.com'', lb_password = Some ''secret1''\<rparr>"
  let ?b2 = "\<lparr>lb_email = Some ''alice@example.com'', lb_password = Some ''wrong-password''\<rparr>"
  have h1: "truthy (lb_email ?b1)" "truthy (lb_password ?b1)" by (simp_all add: truthy_def)
  have h2: "findOne_email [ex_alice] (lb_email ?b1) = None" by code_simp
  have h3: "truthy (lb_email ?b2)" "truthy (lb_password ?b2)" by (simp_all add: truthy_def)
  have h4: "findOne_email [ex_alice] (lb_email ?b2) = Some ex_alice" by code_simp
  have h5: "password ex_alice = Some ''$2a$10$abcdefghijklmnopqrstuv1terces........................''"
    by (simp add: ex_alice_def)
  have h6: "comparePassword ex_externs ex_alice (lb_password ?b2) = Inr False" by code_simp
  from login_failures_identical [OF h1 h2 h3 h4 h5 h6, of ex_ctx] show ?thesis by simp
qed

subsection \<open>Register\<close>

text \<open>
  \<^bold>\<open>C10\<close>.  A registration whose body has no \<^verbatim>\<open>skills\<close>, for an email that no
  stored account has, throws at \<^verbatim>\<open>skills.split\<close> before any document is built.
  The error is no \<^verbatim>\<open>ValidationError\<close>, so the response is the 500 one, and the
  collection is unchanged.
\<close>

theorem register_missing_skills:
  assumes "rb_skills b = SkillsAbsent" and "findOne_email st (rb_email b) = None"
  shows "register ex cx st b =
     ((json 500 False ''Server error during registration'')
        \<lparr>error := Some ''Cannot read properties of undefined (reading 'split')''\<rparr>, st)"
  using assms by (simp add: register_def skills_of_def register_catch_def)

theorem register_missing_skills_witness:
  "register ex_externs ex_ctx [] (ex_body\<lparr>rb_skills := SkillsAbsent\<rparr>) =
     (\<lparr>status = 500, success = False, message = ''Server error during registration'',
       errors = None, error = Some ''Cannot read properties of undefined (reading 'split')'',
       token = None, res_student = None\<rparr>, [])"
proof -
  have a: "rb_skills (ex_body\<lparr>rb_skills := SkillsAbsent\<rparr>) = SkillsAbsent" by simp
  have b: "findOne_email [] (rb_email (ex_body\<lparr>rb_skills := SkillsAbsent\<rparr>)) = None"
    by (simp add: findOne_email_def)
  from register_missing_skills [OF a b, of ex_externs ex_ctx] show ?thesis by (simp add: json_def)
qed

text \<open>
  \<^bold>\<open>C1\<close>.  Stored emails are normalized (lower case, trimmed): an account
  registered with the email \<open>r\<close> stores \<open>normalize_email r\<close>.  A registration whose
  email \<open>e\<close> equals \<open>r\<close> up to letter case is answered with status 400,
  \<^verbatim>\<open>{success: false, message: "Email already registered"}\<close>, and the collection,
  the existing account with it, is unchanged.
\<close>

theorem register_duplicate_email:
  assumes "s \<in> set st" and "email s = Some (normalize_email r)"
      and "rb_email b = Some e" and "toLowerCase e = toLowerCase r"
  shows "register ex cx st b = (json 400 False ''Email already registered'', st)"
proof -
  have "normalize_email e = normalize_email r"
    using assms(4) by (simp add: normalize_email_def)
  with assms(1,2,3) have "findOne_email st (rb_email b) \<noteq> None"
    by (auto simp: findOne_email_def find_None_iff)
  then show ?thesis by (auto simp: register_def)
qed

theorem register_duplicate_email_witness:
  "register ex_externs ex_ctx [ex_alice] (ex_body\<lparr>rb_email := Some ''ALICE@Example.COM''\<rparr>) =
     (\<lparr>status = 400, success = False, message = ''Email already registered'',
       errors = None, error = None, token = None, res_student = None\<rparr>, [ex_alice])"
proof -
  have a: "ex_alice \<in> set [ex_alice]" by simp
  have b: "email ex_alice = Some (normalize_email ''Alice@Example.com'')" by code_simp
  have d: "rb_email (ex_body\<lparr>rb_email := Some ''ALICE@Example.COM''\<rparr>) = Some ''ALICE@Example.COM''"
    by simp
  have e: "toLowerCase ''ALICE@Example.COM'' = toLowerCase ''Alice@Example.com''" by code_simp
  from register_duplicate_email [OF a b d e, of ex_externs ex_ctx] show ?thesis
    by (simp add: json_def)
qed

subsection \<open>Login with a case variant of the email\<close>

lemma find_distinct_key:
  "distinct (map f xs) \<Longrightarrow> x \<in> set xs \<Longrightarrow> find (\<lambda>y. f y = f x) xs = Some x"
  by (induction xs) (auto simp: image_iff)

lemma validate_lastLoginAt [simp]: "validate (s\<lparr>lastLoginAt := v\<rparr>) = validate s"
  by (simp add: validate_def)

lemma findOne_email_variant:
  assumes "s \<in> set st" and "distinct (map email st)"
      and "email s = Some (normalize_email r)" and "toLowerCase v = toLowerCase r"
  shows "findOne_email st (Some v) = Some s"
proof -
  have "normalize_email v = normalize_email r"
    using assms(4) by (simp add: normalize_email_def)
  then have "findOne_email st (Some v) = find (\<lambda>y. email y = email s) st"
    using assms(3) by (simp add: findOne_email_def)
  with assms(1,2) show ?thesis by (simp add: find_distinct_key)
qed

text \<open>The unique index: registering never gives two accounts the same stored email.\<close>

lemma register_keeps_emails_distinct:
  assumes "distinct (map email st)"
  shows "distinct (map email (snd (register ex cx st b)))"
  using assms
  by (auto simp: register_def save_new_def insert_doc_def
           split: option.splits sum.splits if_splits prod.splits)

text \<open>
  \<^bold>\<open>C4\<close>.  Let \<open>s\<close> be a stored account, registered with the email \<open>r\<close>: it
  stores \<open>normalize_email r\<close>, no other account has that email (the unique index), and
  the document is valid under the schema.  A login with any string \<open>v\<close> that equals
  \<open>r\<close> up to letter case and a password that \<^verbatim>\<open>bcrypt.compare\<close> accepts against
  the stored hash succeeds: status 200, a token for \<open>s\<close>, and \<^verbatim>\<open>lastLoginAt\<close> of
  \<open>s\<close> set.
\<close>

theorem login_case_variant:
  assumes "s \<in> set st" and "distinct (map email st)"
      and "email s = Some (normalize_email r)" and "toLowerCase v = toLowerCase r"
      and "password s = Some h" and "validate s = []"
      and "v \<noteq> []" and "p \<noteq> []"
      and "bcrypt_compare ex p h = Inr True"
  shows "login ex cx st \<lparr>lb_email = Some v, lb_password = Some p\<rparr> =
     ((json 200 True ''Login successful'')
        \<lparr>token := Some (issue_token ex cx
                  (s\<lparr>lastLoginAt := Some (now cx), updatedAt := Some (now cx)\<rparr>)),
         res_student := Some (public_of s)\<rparr>,
      update_by_id st (s\<lparr>lastLoginAt := Some (now cx), updatedAt := Some (now cx)\<rparr>))"
proof -
  have f: "findOne_email st (Some v) = Some s"
    using assms(1,2,3,4) by (rule findOne_email_variant)
  have c: "comparePassword ex s (Some p) = Inr True"
    using assms(5,9) by (simp add: comparePassword_def compare_try_def)
  have sv: "save_existing ex cx st False (s\<lparr>lastLoginAt := Some (now cx)\<rparr>) =
      Inr (s\<lparr>lastLoginAt := Some (now cx), updatedAt := Some (now cx)\<rparr>,
           update_by_id st (s\<lparr>lastLoginAt := Some (now cx), updatedAt := Some (now cx)\<rparr>))"
    using assms(6) by (simp add: save_existing_def pre_save_def)
  show ?thesis
    using assms(5,7,8) by (simp add: login_def truthy_def f c sv public_of_def)
qed

theorem login_case_variant_witness:
  "login ex_externs ex_later [ex_alice]
      \<lparr>lb_email = Some ''ALICE@Example.COM'', lb_password = Some ''secret1''\<rparr> =
     (\<lparr>status = 200, success = True, message = ''Login successful'', errors = None,
       error = None, token = Some ''signed:alice@example.com'',
       res_student = Some (public_of ex_alice)\<rparr>,
      [ex_alice\<lparr>lastLoginAt := Some 1700000500000, updatedAt := Some 1700000500000\<rparr>])"
proof -
  have a: "ex_alice \<in> set [ex_alice]" "distinct (map email [ex_alice])" by simp_all
  have b: "email ex_alice = Some (normalize_email ''Alice@Example.com'')" by code_simp
  have c: "toLowerCase ''ALICE@Example.COM'' = toLowerCase ''Alice@Example.com''" by code_simp
  have d: "password ex_alice = Some ''$2a$10$abcdefghijklmnopqrstuv1terces........................''"
    by (simp add: ex_alice_def)
  have e: "validate ex_alice = []" by code_simp
  have g: "''ALICE@Example.COM'' \<noteq> []" "''secret1'' \<noteq> []" by simp_all
  have h: "bcrypt_compare ex_externs ''secret1'' ''$2a$10$abcdefghijklmnopqrstuv1terces........................'' = Inr True"
    by code_simp
  have i: "issue_token ex_externs ex_later
      (ex_alice\<lparr>lastLoginAt := Some 1700000500000, updatedAt := Some 1700000500000\<rparr>) =
      ''signed:alice@example.com''"
    by code_simp
  have j: "now ex_later = 1700000500000" by (simp add: ex_later_def)
  from login_case_variant [OF a b c d e g h, of ex_later] show ?thesis
    by (simp add: i j json_def)
qed

subsection \<open>Logout\<close>

lemma logout_length:
  "length (findByIdAndUpdate_lastLogoutAt st i t) = length st"
  by (induction st) auto

lemma logout_other_fields:
  "map (\<lambda>s. s\<lparr>lastLogoutAt := None, updatedAt := None\<rparr>) (findByIdAndUpdate_lastLogoutAt st i t) =
   map (\<lambda>s. s\<lparr>lastLogoutAt := None, updatedAt := None\<rparr>) st"
  by (induction st) auto

lemma logout_other_accounts:
  "s' \<in> set (findByIdAndUpdate_lastLogoutAt st i t) \<Longrightarrow>
     s' \<in> set st \<or>
     (\<exists>s \<in> set st. sid s = i \<and> s' = s\<lparr>lastLogoutAt := Some t, updatedAt := Some t\<rparr>)"
  by (induction st) (auto split: if_splits)

text \<open>
  \<^bold>\<open>C7\<close>, as the code has it.  An authenticated logout answers 200 and changes, on the
  account the token names, \<^verbatim>\<open>lastLogoutAt\<close> and the timestamp \<^verbatim>\<open>updatedAt\<close>
  that the schema option \<^verbatim>\<open>timestamps: true\<close> maintains; every other field of every
  account is as before.  No token is revoked: the middleware reads only the header, the
  secret and the clock, so whenever it accepts a header, before the logout or after it,
  the protected handler runs, on the collection the logout left.
\<close>

theorem logout_frame:
  assumes "authenticateToken ex t hdr = Next user"
  shows "protected ex t hdr (logout cx) st =
           (json 200 True ''Logged out successfully'',
            findByIdAndUpdate_lastLogoutAt st (tk_userId user) (now cx))
    \<and> length (snd (protected ex t hdr (logout cx) st)) = length st
    \<and> map (\<lambda>s. s\<lparr>lastLogoutAt := None, updatedAt := None\<rparr>)
          (snd (protected ex t hdr (logout cx) st)) =
        map (\<lambda>s. s\<lparr>lastLogoutAt := None, updatedAt := None\<rparr>) st
    \<and> (\<forall>s' \<in> set (snd (protected ex t hdr (logout cx) st)).
          s' \<in> set st \<or> (\<exists>s \<in> set st. sid s = tk_userId user \<and>
             s' = s\<lparr>lastLogoutAt := Some (now cx), updatedAt := Some (now cx)\<rparr>))
    \<and> (\<forall>t' hdr' user' handler.
          authenticateToken ex t' hdr' = Next user' \<longrightarrow>
          protected ex t' hdr' handler (snd (protected ex t hdr (logout cx) st)) =
            handler user' (snd (protected ex t hdr (logout cx) st)))"
proof -
  have run: "protected ex t hdr (logout cx) st =
           (json 200 True ''Logged out successfully'',
            findByIdAndUpdate_lastLogoutAt st (tk_userId user) (now cx))"
    using assms by (simp add: protected_def logout_def)
  have later: "\<And>t' hdr' user' handler st'.
      authenticateToken ex t' hdr' = Next user' \<Longrightarrow>
      protected ex t' hdr' handler st' = handler user' (st' :: student list)"
    by (simp add: protected_def)
  show ?thesis
    unfolding run
    using logout_length logout_other_fields logout_other_accounts later
    by (simp add: protected_def)
qed

theorem logout_frame_witness:
  "authenticateToken ex_externs 0 (Some ''Bearer good'') = Next ex_payload
   \<and> protected ex_externs 0 (Some ''Bearer good'') (logout ex_later) [ex_alice] =
       (json 200 True ''Logged out successfully'',
        [ex_alice\<lparr>lastLogoutAt := Some 1700000500000, updatedAt := Some 1700000500000\<rparr>])"
proof -
  have a: "authenticateToken ex_externs 0 (Some ''Bearer good'') = Next ex_payload" by code_simp
  have b: "findByIdAndUpdate_lastLogoutAt [ex_alice] (tk_userId ex_payload) (now ex_later) =
      [ex_alice\<lparr>lastLogoutAt := Some 1700000500000, updatedAt := Some 1700000500000\<rparr>]"
    by (simp add: ex_alice_def ex_payload_def ex_later_def)
  from logout_frame [OF a, of ex_later "[ex_alice]"]
  have "protected ex_externs 0 (Some ''Bearer good'') (logout ex_later) [ex_alice] =
      (json 200 True ''Logged out successfully'',
       findByIdAndUpdate_lastLogoutAt [ex_alice] (tk_userId ex_payload) (now ex_later))"
    by blast
  with a b show ?thesis by simp
qed

text \<open>
  The account was last written at 1700000000000; after a logout at 1700000500000 its
  \<^verbatim>\<open>updatedAt\<close> is the time of the logout, so \<^verbatim>\<open>lastLogoutAt\<close> is not the only
  field that changed.
\<close>

theorem logout_touches_updatedAt:
  "protected ex_externs 0 (Some ''Bearer good'') (logout ex_later) [ex_alice] =
       (json 200 True ''Logged out successfully'',
        [ex_alice\<lparr>lastLogoutAt := Some 1700000500000, updatedAt := Some 1700000500000\<rparr>])
   \<and> updatedAt ex_alice = Some 1700000000000
   \<and> snd (protected ex_externs 0 (Some ''Bearer good'') (logout ex_later) [ex_alice]) \<noteq>
       [ex_alice\<lparr>lastLogoutAt := Some 1700000500000\<rparr>]"
  by code_simp

subsection \<open>Stored passwords are hash outputs\<close>

lemma validate_has_password:
  "validate d = [] \<Longrightarrow> \<exists>p. password d = Some p"
  by (cases "password d") (auto simp: validate_def validate_password_def)

lemma all_hashed_update:
  "all_hashed ex st \<Longrightarrow> hash_output ex (password d) \<Longrightarrow> all_hashed ex (update_by_id st d)"
  by (induction st) (auto simp: all_hashed_def)

lemma all_hashed_logout:
  "all_hashed ex st \<Longrightarrow> all_hashed ex (findByIdAndUpdate_lastLogoutAt st i t)"
  by (induction st) (auto simp: all_hashed_def)

lemma find_in_set: "find P xs = Some x \<Longrightarrow> x \<in> set xs"
  by (auto simp: find_Some_iff)

lemma hash_outputI: "bcrypt_hash ex plain slt = Inr h \<Longrightarrow> hash_output ex (Some h)"
  unfolding hash_output_def by blast

lemma pre_save_hashed:
  assumes "pre_save ex slt m d = Inr d'" and "m \<or> hash_output ex (password d)"
      and "password d \<noteq> None"
  shows "hash_output ex (password d')"
  using assms
  by (auto simp: pre_save_def split: if_splits option.splits sum.splits intro: hash_outputI)

lemma save_new_hashed:
  assumes "save_new ex cx st d = Inr (d', st')" and "all_hashed ex st"
  shows "all_hashed ex st'"
proof -
  from assms(1) have v: "validate d = []"
    by (auto simp: save_new_def split: if_splits)
  then obtain p where p: "password d = Some p" using validate_has_password by blast
  from assms(1) v obtain h where h: "pre_save ex (salt cx) (password d \<noteq> None) d = Inr h"
    and st': "st' = st @ [h\<lparr>createdAt := Some (now cx), updatedAt := Some (now cx)\<rparr>]"
    by (auto simp: save_new_def insert_doc_def split: if_splits sum.splits)
  from h p have "hash_output ex (password h)"
    by (intro pre_save_hashed [OF h]) auto
  with assms(2) st' show ?thesis by (auto simp: all_hashed_def)
qed

lemma save_existing_hashed:
  assumes "save_existing ex cx st m d = Inr (d', st')" and "all_hashed ex st"
      and "m \<or> hash_output ex (password d)"
  shows "all_hashed ex st'"
proof -
  from assms(1) have v: "validate d = []"
    by (auto simp: save_existing_def split: if_splits)
  then obtain p where p: "password d = Some p" using validate_has_password by blast
  from assms(1) v obtain h where h: "pre_save ex (salt cx) m d = Inr h"
    and st': "st' = update_by_id st (h\<lparr>updatedAt := Some (now cx)\<rparr>)"
    by (auto simp: save_existing_def split: if_splits sum.splits)
  from p have "hash_output ex (password h)"
    by (intro pre_save_hashed [OF h assms(3)]) auto
  with assms(2) st' show ?thesis by (simp add: all_hashed_update)
qed

lemma register_hashed:
  assumes "all_hashed ex st"
  shows "all_hashed ex (snd (register ex cx st b))"
proof (cases "findOne_email st (rb_email b)")
  case (Some existing)
  with assms show ?thesis by (simp add: register_def)
next
  case None
  show ?thesis
  proof (cases "skills_of (rb_skills b)")
    case (Inl e)
    with None assms show ?thesis by (simp add: register_def)
  next
    case sk: (Inr sk)
    show ?thesis
    proof (cases "save_new ex cx st (new_Student ex st b sk)")
      case (Inl e)
      with None sk assms show ?thesis by (simp add: register_def)
    next
      case (Inr r)
      obtain d' st' where r: "r = (d', st')" by (cases r)
      from Inr r assms have "all_hashed ex st'" by (auto dest: save_new_hashed)
      with None sk Inr r show ?thesis by (simp add: register_def)
    qed
  qed
qed

lemma login_hashed:
  assumes "all_hashed ex st"
  shows "all_hashed ex (snd (login ex cx st b))"
proof (cases "\<not> truthy (lb_email b) \<or> \<not> truthy (lb_password b)")
  case True
  with assms show ?thesis by (simp add: login_def)
next
  case ok: False
  show ?thesis
  proof (cases "findOne_email st (lb_email b)")
    case None
    with ok assms show ?thesis by (simp add: login_def)
  next
    case (Some s)
    then have "s \<in> set st" by (auto simp: findOne_email_def dest: find_in_set)
    with assms have hs: "hash_output ex (password (s\<lparr>lastLoginAt := Some (now cx)\<rparr>))"
      by (simp add: all_hashed_def)
    show ?thesis
    proof (cases "password s")
      case None
      with ok Some assms show ?thesis by (simp add: login_def)
    next
      case pw: (Some h)
      show ?thesis
      proof (cases "comparePassword ex s (lb_password b)")
        case (Inl e)
        with ok Some pw assms show ?thesis by (simp add: login_def)
      next
        case m: (Inr isMatch)
        show ?thesis
        proof (cases "save_existing ex cx st False (s\<lparr>lastLoginAt := Some (now cx)\<rparr>)")
          case (Inl e)
          with ok Some pw m assms show ?thesis by (simp add: login_def)
        next
          case (Inr r)
          obtain d' st' where r: "r = (d', st')" by (cases r)
          from Inr r assms hs have "all_hashed ex st'"
            by (auto dest: save_existing_hashed)
          with ok Some pw m Inr r assms show ?thesis by (simp add: login_def)
        qed
      qed
    qed
  qed
qed

lemma set_password_hashed:
  assumes "all_hashed ex st" and "s \<in> set st"
  shows "all_hashed ex (snd (set_password ex cx st s new))"
proof (cases "save_existing ex cx st (password s \<noteq> Some new)
        (s\<lparr>password := Some new, passwordChangedAt := Some (now cx)\<rparr>)")
  case (Inl e)
  with assms show ?thesis by (simp add: set_password_def)
next
  case (Inr r)
  obtain d' st' where r: "r = (d', st')" by (cases r)
  have "password s \<noteq> Some new \<or>
      hash_output ex (password (s\<lparr>password := Some new, passwordChangedAt := Some (now cx)\<rparr>))"
    using assms by (auto simp: all_hashed_def)
  with Inr r assms(1) have "all_hashed ex st'"
    by (auto dest: save_existing_hashed)
  with Inr r show ?thesis
    by (simp add: set_password_def split: option.splits sum.splits)
qed

lemma change_password_hashed:
  assumes "all_hashed ex st"
  shows "all_hashed ex (snd (change_password ex cx user b st))"
proof (cases "findById st (tk_userId user)")
  case None
  with assms show ?thesis
    by (simp add: change_password_def split: option.splits)
next
  case (Some s)
  then have "s \<in> set st" by (auto simp: findById_def dest: find_in_set)
  with assms have "all_hashed ex (snd (set_password ex cx st s new))" for new
    by (rule set_password_hashed)
  with Some assms show ?thesis
    by (simp add: change_password_def split: option.splits)
qed

lemma all_hashed_empty: "all_hashed ex []"
  by (simp add: all_hashed_def)

lemma register_catch_status: "status (register_catch e) \<noteq> 201"
  by (simp add: register_catch_def json_def)

lemma register_stores_hash:
  assumes "register ex cx st b = (r, st')" and "status r = 201"
  shows "\<exists>plain h d. rb_password b = Some plain \<and> bcrypt_hash ex plain (salt cx) = Inr h \<and>
           password d = Some h \<and> st' = st @ [d]"
proof (cases "findOne_email st (rb_email b)")
  case (Some existing)
  with assms show ?thesis by (auto simp: register_def json_def)
next
  case None
  show ?thesis
  proof (cases "skills_of (rb_skills b)")
    case (Inl e)
    with None assms register_catch_status [of e] show ?thesis by (auto simp: register_def)
  next
    case sk: (Inr sk)
    show ?thesis
    proof (cases "save_new ex cx st (new_Student ex st b sk)")
      case (Inl e)
      with None sk assms register_catch_status [of e] show ?thesis by (auto simp: register_def)
    next
      case (Inr x)
      obtain d' st2 where x: "x = (d', st2)" by (cases x)
      with None sk Inr assms have st2: "st2 = st'" by (simp add: register_def)
      let ?d = "new_Student ex st b sk"
      from Inr x have v: "validate ?d = []"
        by (auto simp: save_new_def split: if_splits)
      then obtain plain where p: "password ?d = Some plain" using validate_has_password by blast
      then have rb: "rb_password b = Some plain" by (simp add: new_Student_def)
      from Inr x v p obtain h where h: "bcrypt_hash ex plain (salt cx) = Inr h"
        and d': "d' = ?d\<lparr>password := Some h, createdAt := Some (now cx), updatedAt := Some (now cx)\<rparr>"
        and s2: "st2 = st @ [d']"
        by (auto simp: save_new_def pre_save_def insert_doc_def split: if_splits sum.splits)
      from d' have "password d' = Some h" by simp
      with rb h s2 st2 show ?thesis by blast
    qed
  qed
qed

lemma set_password_stores_hash:
  assumes "set_password ex cx st s new = (r, st')" and "status r = 200"
      and "password s \<noteq> Some new"
  shows "\<exists>h. bcrypt_hash ex new (salt cx) = Inr h \<and>
           st' = update_by_id st (s\<lparr>password := Some h, passwordChangedAt := Some (now cx),
                                      updatedAt := Some (now cx)\<rparr>)"
proof (cases "save_existing ex cx st True
        (s\<lparr>password := Some new, passwordChangedAt := Some (now cx)\<rparr>)")
  case (Inl e)
  with assms show ?thesis
    by (auto simp: set_password_def change_password_catch_def json_def)
next
  case (Inr x)
  obtain d' st2 where x: "x = (d', st2)" by (cases x)
  let ?d = "s\<lparr>password := Some new, passwordChangedAt := Some (now cx)\<rparr>"
  from Inr have v: "validate ?d = []"
    by (auto simp: save_existing_def split: if_splits)
  have "\<exists>h. bcrypt_hash ex new (salt cx) = Inr h"
  proof (cases "bcrypt_hash ex new (salt cx)")
    case (Inl e)
    with Inr v show ?thesis by (simp add: save_existing_def pre_save_def)
  next
    case (Inr h)
    then show ?thesis by blast
  qed
  then obtain h where h: "bcrypt_hash ex new (salt cx) = Inr h" by blast
  with Inr x v have a: "st2 = update_by_id st (?d\<lparr>password := Some h, updatedAt := Some (now cx)\<rparr>)"
    by (auto simp: save_existing_def pre_save_def)
  have b: "?d\<lparr>password := Some h, updatedAt := Some (now cx)\<rparr> =
      s\<lparr>password := Some h, passwordChangedAt := Some (now cx), updatedAt := Some (now cx)\<rparr>"
    by (cases s) simp
  have s2: "st2 = update_by_id st (s\<lparr>password := Some h,
      passwordChangedAt := Some (now cx), updatedAt := Some (now cx)\<rparr>)"
    unfolding a b by (rule refl)
  have "st' = st2"
    using assms Inr x
    by (auto simp: set_password_def change_password_catch_def json_def
             split: option.splits sum.splits if_splits)
  with h s2 show ?thesis by blast
qed

lemma set_password_same_value:
  assumes "password s = Some new" and "validate s = []"
  shows "snd (set_password ex cx st s new) =
           update_by_id st (s\<lparr>passwordChangedAt := Some (now cx), updatedAt := Some (now cx)\<rparr>)"
proof -
  have same: "s\<lparr>password := Some new, passwordChangedAt := Some (now cx)\<rparr> =
      s\<lparr>passwordChangedAt := Some (now cx)\<rparr>"
    using assms(1) by (cases s) simp
  have v: "validate (s\<lparr>passwordChangedAt := Some (now cx)\<rparr>) = []"
    using assms(2) by (simp add: validate_def)
  show ?thesis
    using assms(1) v
    by (simp add: set_password_def same save_existing_def pre_save_def
             split: option.splits sum.splits)
qed

lemma logout_hashed:
  "all_hashed ex st \<Longrightarrow> all_hashed ex (snd (logout cx user st))"
  by (simp add: logout_def all_hashed_logout)

lemma reachable_all_hashed:
  "reachable ex st \<Longrightarrow> all_hashed ex st"
  by (induction rule: reachable.induct)
     (simp_all add: all_hashed_empty register_hashed login_hashed change_password_hashed
        logout_hashed)

text \<open>What each handler does to the stored ids and passwords.\<close>

lemma update_by_id_sids: "map sid (update_by_id st d) = map sid st"
  by (induction st) auto

lemma logout_sids: "map sid (findByIdAndUpdate_lastLogoutAt st i t) = map sid st"
  by (induction st) auto

lemma logout_passwords:
  "map password (findByIdAndUpdate_lastLogoutAt st i t) = map password st"
  by (induction st) auto

lemma update_by_id_passwords:
  assumes "distinct (map sid st)" and "s \<in> set st" and "sid d = sid s"
      and "password d = password s"
  shows "map password (update_by_id st d) = map password st"
  using assms
proof (induction st)
  case Nil
  then show ?case by simp
next
  case (Cons x xs)
  show ?case
  proof (cases "sid x = sid d")
    case True
    with Cons.prems have "s = x" by (auto simp: image_iff)
    with True Cons.prems show ?thesis by simp
  next
    case False
    with Cons.prems have "s \<in> set xs" by auto
    with False Cons show ?thesis by simp
  qed
qed

lemma fresh_id_new: "fresh_id st \<notin> set (map sid st)"
proof
  assume "fresh_id st \<in> set (map sid st)"
  then have "fresh_id st \<le> Max (set (0 # map sid st))" by simp
  also have "\<dots> = fold max (map sid st) 0" by (rule Max.set_eq_fold)
  finally show False by (simp add: fresh_id_def)
qed

lemma pre_save_sid: "pre_save ex slt m d = Inr h \<Longrightarrow> sid h = sid d"
  by (auto simp: pre_save_def split: if_splits option.splits sum.splits)

lemma save_existing_store:
  assumes "save_existing ex cx st m d = Inr (d', st')"
  shows "\<exists>h. pre_save ex (salt cx) m d = Inr h \<and> st' = update_by_id st (h\<lparr>updatedAt := Some (now cx)\<rparr>)"
  using assms by (auto simp: save_existing_def split: if_splits sum.splits)

lemma save_existing_sids:
  "save_existing ex cx st m d = Inr (d', st') \<Longrightarrow> map sid st' = map sid st"
  by (auto dest!: save_existing_store simp: update_by_id_sids)

lemma save_new_store:
  assumes "save_new ex cx st d = Inr (d', st')"
  shows "st' = st @ [d'] \<and> sid d' = sid d"
  using assms
  by (auto simp: save_new_def insert_doc_def split: if_splits sum.splits dest: pre_save_sid)

lemma set_password_snd:
  "snd (set_password ex cx st s new) =
     (case save_existing ex cx st (password s \<noteq> Some new)
             (s\<lparr>password := Some new, passwordChangedAt := Some (now cx)\<rparr>) of
        Inl e \<Rightarrow> st
      | Inr r \<Rightarrow> snd r)"
  by (auto simp: set_password_def split: sum.splits option.splits prod.splits)

lemma change_password_snd:
  "snd (change_password ex cx user pb st) = st \<or>
   (\<exists>s new. findById st (tk_userId user) = Some s \<and> newPassword pb = Some new \<and>
      confirmPassword pb = Some new \<and>
      change_password ex cx user pb st = set_password ex cx st s new)"
  by (auto simp: change_password_def split: option.splits)

lemma find_in_set2: "find P xs = Some x \<Longrightarrow> x \<in> set xs \<and> P x"
  by (auto simp: find_Some_iff)

lemma register_store:
  "snd (register ex cx st rb) = st \<or>
   (\<exists>d. sid d = fresh_id st \<and> snd (register ex cx st rb) = st @ [d])"
proof (cases "findOne_email st (rb_email rb)")
  case (Some existing)
  then show ?thesis by (simp add: register_def)
next
  case None
  show ?thesis
  proof (cases "skills_of (rb_skills rb)")
    case (Inl e)
    with None show ?thesis by (simp add: register_def)
  next
    case sk: (Inr sk)
    show ?thesis
    proof (cases "save_new ex cx st (new_Student ex st rb sk)")
      case (Inl e)
      with None sk show ?thesis by (simp add: register_def)
    next
      case (Inr r)
      obtain d' st' where r: "r = (d', st')" by (cases r)
      with Inr have "st' = st @ [d'] \<and> sid d' = sid (new_Student ex st rb sk)"
        by (auto dest: save_new_store)
      then have "sid d' = fresh_id st \<and> st' = st @ [d']" by (simp add: new_Student_def)
      with None sk Inr r show ?thesis by (auto simp: register_def)
    qed
  qed
qed

lemma register_sids_distinct:
  assumes "distinct (map sid st)"
  shows "distinct (map sid (snd (register ex cx st rb)))"
  using register_store [of ex cx st rb] assms fresh_id_new [of st] by auto

lemma login_store:
  "snd (login ex cx st lb) = st \<or>
   (\<exists>s. findOne_email st (lb_email lb) = Some s \<and>
      snd (login ex cx st lb) =
        update_by_id st (s\<lparr>lastLoginAt := Some (now cx), updatedAt := Some (now cx)\<rparr>))"
proof (cases "\<not> truthy (lb_email lb) \<or> \<not> truthy (lb_password lb)")
  case True
  then show ?thesis by (simp add: login_def)
next
  case ok: False
  show ?thesis
  proof (cases "findOne_email st (lb_email lb)")
    case None
    with ok show ?thesis by (simp add: login_def)
  next
    case (Some s)
    show ?thesis
    proof (cases "password s")
      case None
      with ok Some show ?thesis by (simp add: login_def)
    next
      case pw: (Some h)
      show ?thesis
      proof (cases "comparePassword ex s (lb_password lb)")
        case (Inl e)
        with ok Some pw show ?thesis by (simp add: login_def)
      next
        case m: (Inr isMatch)
        show ?thesis
        proof (cases "save_existing ex cx st False (s\<lparr>lastLoginAt := Some (now cx)\<rparr>)")
          case (Inl e)
          with ok Some pw m show ?thesis by (simp add: login_def)
        next
          case (Inr r)
          obtain d' st' where r: "r = (d', st')" by (cases r)
          with Inr have "st' = update_by_id st
              (s\<lparr>lastLoginAt := Some (now cx), updatedAt := Some (now cx)\<rparr>)"
            by (auto dest!: save_existing_store simp: pre_save_def)
          with ok Some pw m Inr r show ?thesis by (simp add: login_def)
        qed
      qed
    qed
  qed
qed

lemma login_sids: "map sid (snd (login ex cx st lb)) = map sid st"
  using login_store [of ex cx st lb] by (auto simp: update_by_id_sids)

lemma login_passwords:
  assumes "distinct (map sid st)"
  shows "map password (snd (login ex cx st lb)) = map password st"
proof -
  from login_store [of ex cx st lb] show ?thesis
  proof
    assume "snd (login ex cx st lb) = st"
    then show ?thesis by simp
  next
    assume "\<exists>s. findOne_email st (lb_email lb) = Some s \<and>
      snd (login ex cx st lb) =
        update_by_id st (s\<lparr>lastLoginAt := Some (now cx), updatedAt := Some (now cx)\<rparr>)"
    then obtain s where f: "findOne_email st (lb_email lb) = Some s"
      and st': "snd (login ex cx st lb) =
        update_by_id st (s\<lparr>lastLoginAt := Some (now cx), updatedAt := Some (now cx)\<rparr>)"
      by blast
    from f have "s \<in> set st" by (auto simp: findOne_email_def dest: find_in_set2)
    with assms show ?thesis
      unfolding st' by (intro update_by_id_passwords [where s = s]) simp_all
  qed
qed

lemma set_password_sids: "map sid (snd (set_password ex cx st s new)) = map sid st"
  by (auto simp: set_password_snd split: sum.splits dest: save_existing_sids)

lemma change_password_sids: "map sid (snd (change_password ex cx user pb st)) = map sid st"
  using change_password_snd [of ex cx user pb st] by (auto simp: set_password_sids)

lemma logout_route_sids: "map sid (snd (logout cx user st)) = map sid st"
  by (simp add: logout_def logout_sids)

lemma reachable_distinct_sids: "reachable ex st \<Longrightarrow> distinct (map sid st)"
  by (induction rule: reachable.induct)
     (simp_all add: register_sids_distinct login_sids change_password_sids logout_route_sids)

lemma set_password_same_passwords:
  assumes "distinct (map sid st)" and "s \<in> set st" and "password s = Some new"
  shows "map password (snd (set_password ex cx st s new)) = map password st"
proof (cases "save_existing ex cx st False
        (s\<lparr>password := Some new, passwordChangedAt := Some (now cx)\<rparr>)")
  case (Inl e)
  with assms(3) show ?thesis by (simp add: set_password_snd)
next
  case (Inr r)
  obtain d' st' where r: "r = (d', st')" by (cases r)
  with Inr have st': "st' = update_by_id st
      (s\<lparr>password := Some new, passwordChangedAt := Some (now cx), updatedAt := Some (now cx)\<rparr>)"
    by (auto dest!: save_existing_store simp: pre_save_def)
  have "map password st' = map password st"
    unfolding st' using assms by (intro update_by_id_passwords [where s = s]) simp_all
  with Inr r assms(3) show ?thesis by (simp add: set_password_snd)
qed

lemma change_password_same_passwords:
  assumes "distinct (map sid st)" and "findById st (tk_userId user) = Some s"
      and "newPassword pb = Some new" and "password s = Some new"
  shows "map password (snd (change_password ex cx user pb st)) = map password st"
proof -
  from assms(2) have s: "s \<in> set st" by (auto simp: findById_def dest: find_in_set2)
  from change_password_snd [of ex cx user pb st] show ?thesis
  proof
    assume "snd (change_password ex cx user pb st) = st"
    then show ?thesis by simp
  next
    assume "\<exists>s new. findById st (tk_userId user) = Some s \<and> newPassword pb = Some new \<and>
      confirmPassword pb = Some new \<and>
      change_password ex cx user pb st = set_password ex cx st s new"
    with assms(2,3) have "change_password ex cx user pb st = set_password ex cx st s new"
      by auto
    with assms(1,4) s show ?thesis by (simp add: set_password_same_passwords)
  qed
qed

lemma change_password_status_200:
  assumes "status (fst (change_password ex cx user pb st)) = 200"
      and "findById st (tk_userId user) = Some s" and "newPassword pb = Some new"
  shows "change_password ex cx user pb st = set_password ex cx st s new"
  using assms
  by (auto simp: change_password_def json_def change_password_catch_def
           split: option.splits if_splits)

lemma change_password_stores_hash:
  assumes "status (fst (change_password ex cx user pb st)) = 200"
      and "findById st (tk_userId user) = Some s" and "newPassword pb = Some new"
      and "password s \<noteq> Some new"
  shows "\<exists>h. bcrypt_hash ex new (salt cx) = Inr h \<and>
           snd (change_password ex cx user pb st) =
             update_by_id st (s\<lparr>password := Some h, passwordChangedAt := Some (now cx),
                                  updatedAt := Some (now cx)\<rparr>)"
proof -
  have eq: "change_password ex cx user pb st = set_password ex cx st s new"
    using assms(1,2,3) by (rule change_password_status_200)
  with assms(1) have "status (fst (set_password ex cx st s new)) = 200" by simp
  with assms(4) show ?thesis
    unfolding eq
    using set_password_stores_hash [of ex cx st s new "fst (set_password ex cx st s new)"
        "snd (set_password ex cx st s new)"]
    by simp
qed

lemma set_password_store_cases:
  "snd (set_password ex cx st s new) = st
   \<or> (password s = Some new \<and>
       snd (set_password ex cx st s new) =
         update_by_id st (s\<lparr>passwordChangedAt := Some (now cx), updatedAt := Some (now cx)\<rparr>))
   \<or> (\<exists>h. password s \<noteq> Some new \<and> bcrypt_hash ex new (salt cx) = Inr h \<and>
       snd (set_password ex cx st s new) =
         update_by_id st (s\<lparr>password := Some h, passwordChangedAt := Some (now cx),
                              updatedAt := Some (now cx)\<rparr>))"
proof (cases "save_existing ex cx st (password s \<noteq> Some new)
        (s\<lparr>password := Some new, passwordChangedAt := Some (now cx)\<rparr>)")
  case (Inl e)
  then show ?thesis by (simp add: set_password_snd)
next
  case (Inr r)
  obtain d' st' where r: "r = (d', st')" by (cases r)
  let ?d = "s\<lparr>password := Some new, passwordChangedAt := Some (now cx)\<rparr>"
  from Inr r obtain h where h: "pre_save ex (salt cx) (password s \<noteq> Some new) ?d = Inr h"
    and st': "st' = update_by_id st (h\<lparr>updatedAt := Some (now cx)\<rparr>)"
    by (auto dest!: save_existing_store)
  from Inr r have snd: "snd (set_password ex cx st s new) = st'"
    by (simp add: set_password_snd)
  show ?thesis
  proof (cases "password s = Some new")
    case True
    with h have "h = ?d" by (simp add: pre_save_def)
    moreover from True have "?d\<lparr>updatedAt := Some (now cx)\<rparr> =
        s\<lparr>passwordChangedAt := Some (now cx), updatedAt := Some (now cx)\<rparr>"
      by (cases s) simp
    ultimately have "st' = update_by_id st
        (s\<lparr>passwordChangedAt := Some (now cx), updatedAt := Some (now cx)\<rparr>)"
      using st' by simp
    with True snd show ?thesis by simp
  next
    case False
    with h obtain hh where hh: "bcrypt_hash ex new (salt cx) = Inr hh"
      and hd: "h = ?d\<lparr>password := Some hh\<rparr>"
      by (auto simp: pre_save_def split: sum.splits)
    have e: "?d\<lparr>password := Some hh, updatedAt := Some (now cx)\<rparr> =
        s\<lparr>password := Some hh, passwordChangedAt := Some (now cx), updatedAt := Some (now cx)\<rparr>"
      by (cases s) simp
    have "st' = update_by_id st
        (s\<lparr>password := Some hh, passwordChangedAt := Some (now cx), updatedAt := Some (now cx)\<rparr>)"
      unfolding st' hd e by (rule refl)
    with False hh snd show ?thesis by blast
  qed
qed

lemma change_password_store_cases:
  "snd (change_password ex cx user pb st) = st
   \<or> (\<exists>s new. findById st (tk_userId user) = Some s \<and> newPassword pb = Some new \<and>
        password s = Some new \<and>
        snd (change_password ex cx user pb st) =
          update_by_id st (s\<lparr>passwordChangedAt := Some (now cx), updatedAt := Some (now cx)\<rparr>))
   \<or> (\<exists>s new h. findById st (tk_userId user) = Some s \<and> newPassword pb = Some new \<and>
        password s \<noteq> Some new \<and> bcrypt_hash ex new (salt cx) = Inr h \<and>
        snd (change_password ex cx user pb st) =
          update_by_id st (s\<lparr>password := Some h, passwordChangedAt := Some (now cx),
                               updatedAt := Some (now cx)\<rparr>))"
proof -
  from change_password_snd [of ex cx user pb st] show ?thesis
  proof
    assume "snd (change_password ex cx user pb st) = st"
    then show ?thesis by simp
  next
    assume "\<exists>s new. findById st (tk_userId user) = Some s \<and> newPassword pb = Some new \<and>
      confirmPassword pb = Some new \<and>
      change_password ex cx user pb st = set_password ex cx st s new"
    then obtain s new where f: "findById st (tk_userId user) = Some s"
      and n: "newPassword pb = Some new"
      and eq: "change_password ex cx user pb st = set_password ex cx st s new"
      by blast
    from set_password_store_cases [of ex cx st s new] f n show ?thesis
      unfolding eq by blast
  qed
qed

lemma register_keeps_accounts:
  "take (length st) (snd (register ex cx st rb)) = st"
  using register_store [of ex cx st rb] by auto

text \<open>
  \<^bold>\<open>C5\<close>, as the code has it.  The stored password is written only by the hashing
  step: in every state that registrations, logins, password changes and logouts reach
  from the empty collection, every stored password is an output of
  \<^verbatim>\<open>bcrypt.hash\<close>.  A registration that succeeds stores \<^verbatim>\<open>bcrypt.hash\<close> of the
  submitted password with the fresh salt, and no registration touches an existing
  account.  A password change leaves the collection as it is, or it saves the account
  the token names: with \<^verbatim>\<open>bcrypt.hash\<close> of the new password when that differs from
  the stored value (so after every change answered with 200), and with the password as
  it was when the request submits the stored value itself, since the hook hashes only a
  modified password.  A login and a logout leave every stored password as it is.
\<close>

theorem password_written_by_hashing_only:
  assumes "reachable ex st"
  shows "all_hashed ex st
    \<and> (status (fst (register ex cx st rb)) = 201 \<longrightarrow>
         (\<exists>plain h d. rb_password rb = Some plain \<and> bcrypt_hash ex plain (salt cx) = Inr h \<and>
            password d = Some h \<and> snd (register ex cx st rb) = st @ [d]))
    \<and> take (length st) (snd (register ex cx st rb)) = st
    \<and> (snd (change_password ex cx user pb st) = st
        \<or> (\<exists>s new. findById st (tk_userId user) = Some s \<and> newPassword pb = Some new \<and>
             password s = Some new \<and>
             snd (change_password ex cx user pb st) =
               update_by_id st (s\<lparr>passwordChangedAt := Some (now cx),
                                    updatedAt := Some (now cx)\<rparr>))
        \<or> (\<exists>s new h. findById st (tk_userId user) = Some s \<and> newPassword pb = Some new \<and>
             password s \<noteq> Some new \<and> bcrypt_hash ex new (salt cx) = Inr h \<and>
             snd (change_password ex cx user pb st) =
               update_by_id st (s\<lparr>password := Some h, passwordChangedAt := Some (now cx),
                                    updatedAt := Some (now cx)\<rparr>)))
    \<and> (\<forall>s new. findById st (tk_userId user) = Some s \<and> newPassword pb = Some new \<and>
          password s \<noteq> Some new \<and> status (fst (change_password ex cx user pb st)) = 200 \<longrightarrow>
         (\<exists>h. bcrypt_hash ex new (salt cx) = Inr h \<and>
            snd (change_password ex cx user pb st) =
              update_by_id st (s\<lparr>password := Some h, passwordChangedAt := Some (now cx),
                                   updatedAt := Some (now cx)\<rparr>)))
    \<and> (\<forall>s new. findById st (tk_userId user) = Some s \<and> newPassword pb = Some new \<and>
          password s = Some new \<longrightarrow>
         map password (snd (change_password ex cx user pb st)) = map password st)
    \<and> map password (snd (login ex cx st lb)) = map password st
    \<and> map password (snd (logout cx user st)) = map password st"
proof -
  have d: "distinct (map sid st)" using assms by (rule reachable_distinct_sids)
  have reg: "status (fst (register ex cx st rb)) = 201 \<longrightarrow>
         (\<exists>plain h d. rb_password rb = Some plain \<and> bcrypt_hash ex plain (salt cx) = Inr h \<and>
            password d = Some h \<and> snd (register ex cx st rb) = st @ [d])"
    using register_stores_hash [of ex cx st rb "fst (register ex cx st rb)" "snd (register ex cx st rb)"]
    by simp
  have chg: "\<forall>s new. findById st (tk_userId user) = Some s \<and> newPassword pb = Some new \<and>
          password s \<noteq> Some new \<and> status (fst (change_password ex cx user pb st)) = 200 \<longrightarrow>
         (\<exists>h. bcrypt_hash ex new (salt cx) = Inr h \<and>
            snd (change_password ex cx user pb st) =
              update_by_id st (s\<lparr>password := Some h, passwordChangedAt := Some (now cx),
                                   updatedAt := Some (now cx)\<rparr>))"
    using change_password_stores_hash [of ex cx user pb st] by blast
  have same: "\<forall>s new. findById st (tk_userId user) = Some s \<and> newPassword pb = Some new \<and>
          password s = Some new \<longrightarrow>
         map password (snd (change_password ex cx user pb st)) = map password st"
    using change_password_same_passwords [OF d, of user _ pb] by blast
  have li: "map password (snd (login ex cx st lb)) = map password st"
    using d by (rule login_passwords)
  have lo: "map password (snd (logout cx user st)) = map password st"
    by (simp add: logout_def logout_passwords)
  from reachable_all_hashed [OF assms] reg register_keeps_accounts [of st ex cx rb]
    change_password_store_cases [of ex cx user pb st] chg same li lo
  show ?thesis by (intro conjI)
qed

theorem password_written_by_hashing_only_witness:
  "reachable ex_externs
     [ex_alice\<lparr>password := Some ''$2a$10$ABCDEFGHIJKLMNOPQRSTUV2terces........................'',
                passwordChangedAt := Some 1700000500000, updatedAt := Some 1700000500000\<rparr>]
   \<and> all_hashed ex_externs
     [ex_alice\<lparr>password := Some ''$2a$10$ABCDEFGHIJKLMNOPQRSTUV2terces........................'',
                passwordChangedAt := Some 1700000500000, updatedAt := Some 1700000500000\<rparr>]"
proof -
  have r: "snd (register ex_externs ex_ctx [] ex_body) = [ex_alice]" by code_simp
  have c: "snd (change_password ex_externs ex_later ex_payload
        \<lparr>newPassword = Some ''secret2'', confirmPassword = Some ''secret2''\<rparr> [ex_alice]) =
        [ex_alice\<lparr>password := Some ''$2a$10$ABCDEFGHIJKLMNOPQRSTUV2terces........................'',
                   passwordChangedAt := Some 1700000500000, updatedAt := Some 1700000500000\<rparr>]"
    by code_simp
  have "reachable ex_externs (snd (register ex_externs ex_ctx [] ex_body))"
    by (rule reach_register) (rule reach_empty)
  then have "reachable ex_externs [ex_alice]" by (simp only: r)
  then have "reachable ex_externs (snd (change_password ex_externs ex_later ex_payload
        \<lparr>newPassword = Some ''secret2'', confirmPassword = Some ''secret2''\<rparr> [ex_alice]))"
    by (rule reach_change_password)
  then have a: "reachable ex_externs
     [ex_alice\<lparr>password := Some ''$2a$10$ABCDEFGHIJKLMNOPQRSTUV2terces........................'',
                passwordChangedAt := Some 1700000500000, updatedAt := Some 1700000500000\<rparr>]"
    by (simp only: c)
  from password_written_by_hashing_only [OF a] a show ?thesis by blast
qed

text \<open>
  Registering \<open>ex_body\<close> stores a hash, the password of \<open>ex_alice\<close>.  A
  password change that submits this very string as the new password completes its save,
  and the stored value is then equal to the plaintext the client submitted.
\<close>

theorem change_password_to_stored_value:
  "snd (register ex_externs ex_ctx [] ex_body) = [ex_alice]
   \<and> password ex_alice = Some ''$2a$10$abcdefghijklmnopqrstuv1terces........................''
   \<and> change_password ex_externs ex_later ex_payload
        \<lparr>newPassword = Some ''$2a$10$abcdefghijklmnopqrstuv1terces........................'',
         confirmPassword = Some ''$2a$10$abcdefghijklmnopqrstuv1terces........................''\<rparr> [ex_alice] =
       (json 500 False ''Password update failed. Please try again.'',
        [ex_alice\<lparr>passwordChangedAt := Some 1700000500000, updatedAt := Some 1700000500000\<rparr>])
   \<and> map password (snd (change_password ex_externs ex_later ex_payload
        \<lparr>newPassword = Some ''$2a$10$abcdefghijklmnopqrstuv1terces........................'',
         confirmPassword = Some ''$2a$10$abcdefghijklmnopqrstuv1terces........................''\<rparr> [ex_alice])) =
       [Some ''$2a$10$abcdefghijklmnopqrstuv1terces........................'']"
  by code_simp

end
